theory Spec2Isabelle
  imports
    Main
    "HOL-Library.Word"
    "HOL-Library.Multiset"
    "HOL-Library.Sublist"
    "HOL-Library.AList"
    "HOL-Library.Char_ord"
    "HOL-Library.List_Lexorder"
    "HOL-Library.Product_Lexorder"
begin

unbundle bit_operations_syntax

section \<open>Shard inventory of influx\_tsm: the data model\<close>

text \<open>
  The Go file declares \<^verbatim>\<open>type EngineFormat int\<close> and three untyped constants
  \<^verbatim>\<open>b1 = iota; bz1; tsm1\<close>. The type is an integer type, so it is embedded as
  \<open>int\<close> (no arithmetic is ever done on a format, so the width of Go's \<open>int\<close> plays
  no role); the constants are 0, 1 and 2.
\<close>

type_synonym EngineFormat = int

definition b1 :: EngineFormat where
  "b1 = 0"

definition bz1 :: EngineFormat where
  "bz1 = 1"

definition tsm1 :: EngineFormat where
  "tsm1 = 2"

text \<open>
  What the operating system reports about a file: \<^verbatim>\<open>os.FileInfo\<close> with its methods
  \<^verbatim>\<open>Mode()\<close> (a \<^verbatim>\<open>uint32\<close> of mode bits) and \<^verbatim>\<open>Size()\<close> (an \<^verbatim>\<open>int64\<close>).
  \<^verbatim>\<open>FileMode.IsDir\<close> tests the bit \<^verbatim>\<open>ModeDir = 1 << 31\<close>.
\<close>

record FileInfo =
  Mode :: "32 word"
  Size :: "64 word"

definition ModeDir :: "32 word" where
  "ModeDir = push_bit 31 1"

definition IsDir :: "32 word \<Rightarrow> bool" where
  "IsDir m = (m AND ModeDir \<noteq> 0)"

text \<open>
  \<^verbatim>\<open>ShardInfo\<close>, the description of a shard on disk. Strings are byte strings, compared
  with \<open><\<close> byte by byte as Go compares them (the lexicographic order of
  \<open>List_Lexorder\<close> over the byte order of \<open>Char_ord\<close>).
\<close>

record ShardInfo =
  Database :: string
  RetentionPolicy :: string
  Path :: string
  Format :: EngineFormat
  Size :: "64 word"

text \<open>A Go panic, with its message.\<close>

datatype panic = Panic string

definition FormatAsString :: "ShardInfo \<Rightarrow> panic + string" where
  "FormatAsString s =
     (if Format s = tsm1 then Inr ''tsm1''
      else if Format s = b1 then Inr ''b1''
      else if Format s = bz1 then Inr ''bz1''
      else Inl (Panic ''unrecognized shard engine format''))"

section \<open>ShardInfos: the sort interface, Filter and Databases\<close>

text \<open>
  \<^verbatim>\<open>type ShardInfos []*ShardInfo\<close>. Every entry the program stores is the address of
  a freshly built record (\<^verbatim>\<open>&ShardInfo{...}\<close> in \<^verbatim>\<open>Shards\<close>) and no function of
  the file writes through such a pointer, so a slice is embedded as the list of the
  records its entries point to. Indices are Go \<^verbatim>\<open>int\<close>s; an index outside the slice
  panics.
\<close>

type_synonym ShardInfos = "ShardInfo list"

definition Len :: "ShardInfos \<Rightarrow> int" where
  "Len s = int (length s)"

definition inRange :: "ShardInfos \<Rightarrow> int \<Rightarrow> bool" where
  "inRange s i = (0 \<le> i \<and> i < Len s)"

definition Swap :: "ShardInfos \<Rightarrow> int \<Rightarrow> int \<Rightarrow> panic + ShardInfos" where
  "Swap s i j =
     (if inRange s i \<and> inRange s j
      then Inr (s[nat i := s ! nat j, nat j := s ! nat i])
      else Inl (Panic ''index out of range''))"

text \<open>
  \<^verbatim>\<open>Less\<close> as the source has it: on equal database and retention policy the
  source compares \<^verbatim>\<open>s[i].Path < s[i].Path\<close>, the path of entry \<open>i\<close> with itself.
\<close>

definition Less :: "ShardInfos \<Rightarrow> int \<Rightarrow> int \<Rightarrow> panic + bool" where
  "Less s i j =
     (if inRange s i \<and> inRange s j
      then Inr
        (if Database (s ! nat i) = Database (s ! nat j)
         then (if RetentionPolicy (s ! nat i) = RetentionPolicy (s ! nat j)
               then Path (s ! nat i) < Path (s ! nat i)
               else RetentionPolicy (s ! nat i) < RetentionPolicy (s ! nat j))
         else Database (s ! nat i) < Database (s ! nat j))
      else Inl (Panic ''index out of range''))"

text \<open>
  \<^verbatim>\<open>Filter\<close>: the loop over \<open>s\<close> with the local slice \<open>a\<close>, which starts as the
  nil slice and grows by \<^verbatim>\<open>append\<close>.
\<close>

fun Filter_loop :: "ShardInfos \<Rightarrow> EngineFormat \<Rightarrow> ShardInfos \<Rightarrow> ShardInfos" where
  "Filter_loop [] fmt a = a"
| "Filter_loop (ss # s) fmt a =
     (if Format ss = fmt then Filter_loop s fmt a
      else Filter_loop s fmt (a @ [ss]))"

definition Filter :: "ShardInfos \<Rightarrow> EngineFormat \<Rightarrow> ShardInfos" where
  "Filter s fmt = Filter_loop s fmt []"

text \<open>
  \<^verbatim>\<open>Databases\<close>: the first loop fills the map \<open>dbm\<close> (an association list with
  one entry per key: \<open>AList.update\<close> overwrites an existing key), the second loop
  ranges over the map and appends every key to \<open>dbk\<close>, and \<^verbatim>\<open>sort.Strings\<close> sorts
  \<open>dbk\<close>. Go ranges over a map in an unspecified order: the order is the parameter
  \<open>range_order\<close>, a function that rearranges the list of keys.
  \<^verbatim>\<open>sort.Strings\<close> sorts into increasing order; the order of strings is linear, so
  its result is the one sorted rearrangement of its input, which \<open>sort\<close> computes.
\<close>

fun Databases_dbm :: "ShardInfos \<Rightarrow> (string \<times> bool) list \<Rightarrow> (string \<times> bool) list" where
  "Databases_dbm [] dbm = dbm"
| "Databases_dbm (ss # s) dbm = Databases_dbm s (AList.update (Database ss) True dbm)"

fun Databases_dbk :: "string list \<Rightarrow> string list \<Rightarrow> string list" where
  "Databases_dbk [] dbk = dbk"
| "Databases_dbk (k # ks) dbk = Databases_dbk ks (dbk @ [k])"

definition sort_Strings :: "string list \<Rightarrow> string list" where
  "sort_Strings dbk = sort dbk"

definition Databases :: "(string list \<Rightarrow> string list) \<Rightarrow> ShardInfos \<Rightarrow> string list" where
  "Databases range_order s =
     (let dbm = Databases_dbm s [];
          dbk = Databases_dbk (range_order (map fst dbm)) []
      in sort_Strings dbk)"

section \<open>The environment: operating system, bolt store and library routines\<close>

text \<open>
  \<^verbatim>\<open>Shards\<close> and \<^verbatim>\<open>shardFormat\<close> call into the operating system, the bolt
  key-value store and the Go library. What these calls answer is the parameter of
  the embedding, a record of functions; errors are values of an arbitrary type
  \<open>'e\<close>, which the code only passes on. The directory tree does not change during
  one call, so each answer is a function of the arguments.

  An open \<^verbatim>\<open>*os.File\<close> is identified by a handle. \<^verbatim>\<open>Readdirnames(n)\<close> returns
  the names it has read together with an optional error (with \<open>n \<le> 0\<close>: the names read
  until the error, when there is one).
\<close>

datatype File = File string

text \<open>
  A bolt store as the code sees it: \<^verbatim>\<open>db.View\<close> begins a read-only transaction
  (which can fail), runs the function it is given on the transaction and rolls the
  transaction back (which can fail as well). A transaction maps the names of the
  top-level buckets to buckets (\<^verbatim>\<open>tx.Bucket\<close> returns nil for a missing one), a
  bucket maps keys to values (\<^verbatim>\<open>b.Get\<close> returns nil for a missing key), and the
  conversion \<^verbatim>\<open>string(...)\<close> of a nil byte slice is the empty string.
\<close>

type_synonym Bucket = "string \<rightharpoonup> string"

type_synonym Tx = "string \<rightharpoonup> Bucket"

record 'e DB =
  Begin :: "'e + Tx"
  Rollback :: "'e option"

record Options =
  Timeout :: int

definition Second :: int where
  "Second = 1000000000"

definition Bucket :: "Tx \<Rightarrow> string \<Rightarrow> Bucket option" where
  "Bucket tx name = tx name"

definition Get :: "Bucket \<Rightarrow> string \<Rightarrow> string option" where
  "Get b key = b key"

definition string_of_bytes :: "string option \<Rightarrow> string" where
  "string_of_bytes v = (case v of None \<Rightarrow> [] | Some bs \<Rightarrow> bs)"

definition View :: "'e DB \<Rightarrow> (Tx \<Rightarrow> 's \<Rightarrow> 's \<times> 'e option) \<Rightarrow> 's \<Rightarrow> 's \<times> 'e option" where
  "View db fn st =
     (case Begin db of
        Inl err \<Rightarrow> (st, Some err)
      | Inr tx \<Rightarrow>
          (case fn tx st of
             (st', Some err) \<Rightarrow> (st', Some err)
           | (st', None) \<Rightarrow> (st', Rollback db)))"

record 'e env =
  os_Open :: "string \<Rightarrow> 'e + File"
  Readdirnames :: "File \<Rightarrow> int \<Rightarrow> string list \<times> 'e option"
  Stat :: "File \<Rightarrow> 'e + FileInfo"
  bolt_Open :: "string \<Rightarrow> nat \<Rightarrow> Options \<Rightarrow> 'e + 'e DB"
  filepath_Join :: "string list \<Rightarrow> string"
  path_Base :: "string \<Rightarrow> string"
  sort_Sort :: "ShardInfos \<Rightarrow> ShardInfos"

section \<open>shardFormat\<close>

text \<open>
  The function passed to \<^verbatim>\<open>db.View\<close>: it assigns the captured variable
  \<open>format\<close> and returns nil.
\<close>

definition shardFormat_view :: "Tx \<Rightarrow> EngineFormat \<Rightarrow> EngineFormat \<times> 'e option" where
  "shardFormat_view tx format =
     (case Bucket tx ''meta'' of
        None \<Rightarrow> (b1, None)
      | Some b \<Rightarrow>
          if string_of_bytes (Get b ''format'') = ''v1'' then (b1, None)
          else (bz1, None))"

text \<open>
  \<^verbatim>\<open>shardFormat\<close> returns the triple (format, size, error) of the Go function; the
  error is \<open>None\<close> for nil. \<open>0o666\<close> is 438.
\<close>

definition shardFormat :: "'e env \<Rightarrow> string \<Rightarrow> EngineFormat \<times> 64 word \<times> 'e option" where
  "shardFormat w pth =
     (case os_Open w pth of
        Inl err \<Rightarrow> (0, 0, Some err)
      | Inr f \<Rightarrow>
          (case Stat w f of
             Inl err \<Rightarrow> (0, 0, Some err)
           | Inr fi \<Rightarrow>
               if IsDir (Mode fi) then (tsm1, FileInfo.Size fi, None)
               else
                 (case bolt_Open w pth 438 \<lparr>Timeout = 1 * Second\<rparr> of
                    Inl err \<Rightarrow> (0, 0, Some err)
                  | Inr db \<Rightarrow>
                      (case View db shardFormat_view 0 of
                         (format, err) \<Rightarrow> (format, FileInfo.Size fi, err)))))"

section \<open>Database and Shards\<close>

record Database =
  path :: string

definition NewDatabase :: "string \<Rightarrow> Database" where
  "NewDatabase pth = \<lparr>path = pth\<rparr>"

definition Name :: "'e env \<Rightarrow> Database \<Rightarrow> string" where
  "Name w d = path_Base w (path d)"

text \<open>
  The inner loop of \<^verbatim>\<open>Shards\<close> over the shard names of one retention policy.
  \<open>Inl err\<close> is the early \<^verbatim>\<open>return nil, err\<close>.
\<close>

fun Shards_shards ::
  "'e env \<Rightarrow> Database \<Rightarrow> string \<Rightarrow> string list \<Rightarrow> ShardInfos \<Rightarrow> 'e + ShardInfos" where
  "Shards_shards w d rp [] shardInfos = Inr shardInfos"
| "Shards_shards w d rp (sh # shards) shardInfos =
     (case shardFormat w (filepath_Join w [path d, rp, sh]) of
        (fmt, sz, Some err) \<Rightarrow> Inl err
      | (fmt, sz, None) \<Rightarrow>
          Shards_shards w d rp shards
            (shardInfos @
              [\<lparr>Database = Name w d, RetentionPolicy = path_Base w rp, Path = sh,
                Format = fmt, Size = sz\<rparr>]))"

text \<open>
  The outer loop over the retention policies. The error of
  \<^verbatim>\<open>rpfd.Readdirnames(-1)\<close> is assigned to \<open>err\<close> and not looked at: the loop over
  \<open>shards\<close> follows at once.
\<close>

fun Shards_rps ::
  "'e env \<Rightarrow> Database \<Rightarrow> string list \<Rightarrow> ShardInfos \<Rightarrow> 'e + ShardInfos" where
  "Shards_rps w d [] shardInfos = Inr shardInfos"
| "Shards_rps w d (rp # rps) shardInfos =
     (case os_Open w (filepath_Join w [path d, rp]) of
        Inl err \<Rightarrow> Inl err
      | Inr rpfd \<Rightarrow>
          (case Readdirnames w rpfd (- 1) of
             (shards, err) \<Rightarrow>
               (case Shards_shards w d rp shards shardInfos of
                  Inl err' \<Rightarrow> Inl err'
                | Inr shardInfos' \<Rightarrow> Shards_rps w d rps shardInfos')))"

text \<open>
  \<^verbatim>\<open>Shards\<close> returns the pair (slice, error) of the Go function: the nil slice is
  \<open>[]\<close>, the nil error \<open>None\<close>.
\<close>

definition Shards :: "'e env \<Rightarrow> Database \<Rightarrow> ShardInfos \<times> 'e option" where
  "Shards w d =
     (case os_Open w (path d) of
        Inl err \<Rightarrow> ([], Some err)
      | Inr fd \<Rightarrow>
          (case Readdirnames w fd (- 1) of
             (rps, Some err) \<Rightarrow> ([], Some err)
           | (rps, None) \<Rightarrow>
               (case Shards_rps w d rps [] of
                  Inl err \<Rightarrow> ([], Some err)
                | Inr shardInfos \<Rightarrow> (sort_Sort w shardInfos, None))))"

section \<open>What the library's sort and the map iteration guarantee\<close>

text \<open>
  \<^verbatim>\<open>sort.Sort\<close> is not stable and its algorithm is the library's: the embedding
  takes it as the field \<open>sort_Sort\<close> of the environment and uses only its contract.
  It rearranges the slice (by calls of \<^verbatim>\<open>Swap\<close>) so that afterwards no later
  entry is \<^verbatim>\<open>Less\<close> than an earlier one. This contract speaks of the result
  only; how the result comes about through \<^verbatim>\<open>Len\<close>, \<^verbatim>\<open>Less\<close> and
  \<^verbatim>\<open>Swap\<close> is embedded further down.
\<close>

definition sort_Sort_contract :: "(ShardInfos \<Rightarrow> ShardInfos) \<Rightarrow> bool" where
  "sort_Sort_contract srt =
     (\<forall>s. mset (srt s) = mset s \<and>
          (\<forall>i j. i < j \<and> j < length (srt s) \<longrightarrow>
                 Less (srt s) (int j) (int i) = Inr False))"

text \<open>Ranging over a map visits every key once, in some order.\<close>

definition range_contract :: "(string list \<Rightarrow> string list) \<Rightarrow> bool" where
  "range_contract range_order = (\<forall>ks. mset (range_order ks) = mset ks)"

section \<open>A concrete environment\<close>

text \<open>
  An environment to run the functions on. \<^verbatim>\<open>path.Base\<close> as the Go library defines
  it: \<open>.\<close> for the empty path, trailing slashes stripped, then the part after the
  last slash, and \<open>/\<close> when nothing is left. \<open>join_slash\<close> is what
  \<^verbatim>\<open>filepath.Join\<close> returns on elements that are already clean. \<open>sort_by_key\<close>
  is one sort that meets the contract of \<^verbatim>\<open>sort.Sort\<close>.
\<close>

definition path_Base_go :: "string \<Rightarrow> string" where
  "path_Base_go p =
     (if p = [] then ''.''
      else
        (let p1 = rev (dropWhile (\<lambda>c. c = CHR ''/'') (rev p));
             p2 = rev (takeWhile (\<lambda>c. c \<noteq> CHR ''/'') (rev p1))
         in if p2 = [] then ''/'' else p2))"

fun join_slash :: "string list \<Rightarrow> string" where
  "join_slash [] = []"
| "join_slash [x] = x"
| "join_slash (x # y # ys) = x @ ''/'' @ join_slash (y # ys)"

definition sort_by_key :: "ShardInfos \<Rightarrow> ShardInfos" where
  "sort_by_key s = sort_key (\<lambda>x. (Database x, RetentionPolicy x)) s"

text \<open>
  Every path can be opened; an entry named \<open>s_dir\<close> is a directory of 4096 bytes,
  every other entry a file of 65536 bytes that bolt opens with the buckets \<open>tx\<close>;
  \<open>listing\<close> is what \<^verbatim>\<open>Readdirnames\<close> answers for each path.
\<close>

definition example_env :: "(string \<Rightarrow> string list \<times> string option) \<Rightarrow> Tx \<Rightarrow> string env" where
  "example_env listing tx =
     \<lparr>os_Open = (\<lambda>p. Inr (File p)),
      Readdirnames = (\<lambda>f n. case f of File p \<Rightarrow> listing p),
      Stat = (\<lambda>f. case f of File p \<Rightarrow>
                Inr (if path_Base_go p = ''s_dir''
                     then \<lparr>Mode = ModeDir OR 493, Size = 4096\<rparr>
                     else \<lparr>Mode = 420, Size = 65536\<rparr>)),
      bolt_Open = (\<lambda>p mode opts. Inr \<lparr>Begin = Inr tx, Rollback = None\<rparr>),
      filepath_Join = join_slash,
      path_Base = path_Base_go,
      sort_Sort = sort_by_key\<rparr>"

text \<open>
  A database \<open>/data/db1\<close> with the retention policies \<open>rp2\<close> and \<open>rp1\<close>, listed
  in this order.
\<close>

definition listing_ok :: "string \<Rightarrow> string list \<times> string option" where
  "listing_ok p =
     (if p = ''/data/db1'' then ([''rp2'', ''rp1''], None)
      else if p = ''/data/db1/rp1'' then ([''s_flat'', ''s_dir''], None)
      else if p = ''/data/db1/rp2'' then ([''s_dir''], None)
      else ([], Some ''not a directory''))"

text \<open>
  The same database with two entries: a retention policy \<open>rp\<close> whose listing
  breaks off with an error after the first name, and a plain file \<open>README\<close>, which
  opens but cannot be listed.
\<close>

definition listing_broken :: "string \<Rightarrow> string list \<times> string option" where
  "listing_broken p =
     (if p = ''/data/db1'' then ([''rp'', ''README''], None)
      else if p = ''/data/db1/rp'' then ([''s_dir''], Some ''input/output error'')
      else ([], Some ''not a directory''))"

text \<open>A record whose format is none of the three constants.\<close>

definition odd_shard :: ShardInfo where
  "odd_shard =
     \<lparr>Database = ''db1'', RetentionPolicy = ''rp1'', Path = ''1'', Format = 3, Size = 0\<rparr>"

section \<open>Filter on the Go heap\<close>

text \<open>
  The list embedding above cannot tell a function that builds a new slice from one
  that overwrites the slice it was given, as \<^verbatim>\<open>append\<close> on a slice with spare
  capacity does. So \<^verbatim>\<open>Filter\<close> is embedded a second time, on an explicit heap.
  The heap holds the records (\<open>objs\<close>, from addresses to records; an address without
  a record is nil), the backing arrays of slices (\<open>arrays\<close>, whose cells hold
  addresses) and the number of the next array to allocate. A slice is a window on a
  backing array: the array, the offset of its first cell and its length; its capacity
  is the rest of the array.

  \<^verbatim>\<open>append(a, x)\<close> writes \<open>x\<close> behind the last cell of \<open>a\<close> when the capacity
  allows it, and otherwise allocates a new array with the cells of \<open>a\<close>, then \<open>x\<close>;
  how much room it leaves behind \<open>x\<close> is the runtime's choice, the parameter \<open>grow\<close>.
\<close>

record slice =
  arr :: nat
  off :: nat
  len :: nat

record memory =
  objs :: "nat \<rightharpoonup> ShardInfo"
  arrays :: "nat \<Rightarrow> nat list"
  next_array :: nat

definition nil_slice :: slice where
  "nil_slice = \<lparr>arr = 0, off = 0, len = 0\<rparr>"

definition cap :: "memory \<Rightarrow> slice \<Rightarrow> nat" where
  "cap m a = length (arrays m (arr a)) - off a"

definition cells :: "memory \<Rightarrow> slice \<Rightarrow> nat list" where
  "cells m a = take (len a) (drop (off a) (arrays m (arr a)))"

definition contents :: "memory \<Rightarrow> slice \<Rightarrow> ShardInfo option list" where
  "contents m a = map (objs m) (cells m a)"

definition append_slice :: "(nat \<Rightarrow> nat) \<Rightarrow> memory \<Rightarrow> slice \<Rightarrow> nat \<Rightarrow> memory \<times> slice" where
  "append_slice grow m a x =
     (if len a < cap m a
      then (m\<lparr>arrays := (arrays m)(arr a := (arrays m (arr a))[off a + len a := x])\<rparr>,
            a\<lparr>len := Suc (len a)\<rparr>)
      else (m\<lparr>arrays := (arrays m)
                 (next_array m := cells m a @ x # replicate (grow (cap m a) - Suc (len a)) 0),
              next_array := Suc (next_array m)\<rparr>,
            \<lparr>arr = next_array m, off = 0, len = Suc (len a)\<rparr>))"

text \<open>
  The loop of \<^verbatim>\<open>Filter\<close>: \<open>i\<close> is the index, \<open>k\<close> the number of entries still to
  visit. Each round reads entry \<open>i\<close> of \<open>s\<close> from the heap as it is then, and
  \<^verbatim>\<open>ss.Format\<close> on a nil entry panics.
\<close>

fun Filter_mem_loop ::
  "(nat \<Rightarrow> nat) \<Rightarrow> EngineFormat \<Rightarrow> slice \<Rightarrow> nat \<Rightarrow> nat \<Rightarrow> memory \<Rightarrow> slice \<Rightarrow> panic + memory \<times> slice" where
  "Filter_mem_loop grow fmt s i 0 m a = Inr (m, a)"
| "Filter_mem_loop grow fmt s i (Suc k) m a =
     (case objs m (arrays m (arr s) ! (off s + i)) of
        None \<Rightarrow> Inl (Panic ''invalid memory address or nil pointer dereference'')
      | Some ss \<Rightarrow>
          if Format ss = fmt then Filter_mem_loop grow fmt s (Suc i) k m a
          else (case append_slice grow m a (arrays m (arr s) ! (off s + i)) of
                  (m', a') \<Rightarrow> Filter_mem_loop grow fmt s (Suc i) k m' a'))"

definition Filter_mem :: "(nat \<Rightarrow> nat) \<Rightarrow> memory \<Rightarrow> slice \<Rightarrow> EngineFormat \<Rightarrow> panic + memory \<times> slice" where
  "Filter_mem grow m s fmt = Filter_mem_loop grow fmt s 0 (len s) m nil_slice"

definition mem_ok :: "memory \<Rightarrow> bool" where
  "mem_ok m = (0 < next_array m \<and> arrays m 0 = [])"

definition slice_ok :: "memory \<Rightarrow> slice \<Rightarrow> bool" where
  "slice_ok m s = (arr s < next_array m \<and> off s + len s \<le> length (arrays m (arr s)))"

text \<open>
  A well-formed heap has no array number 0 (the array of the nil slice), and a
  well-formed slice lies inside an allocated array. \<open>local_slice\<close> describes the
  local \<open>a\<close> of the loop: nil, or a window at the start of an array allocated since
  the call began. \<open>kept m0 m\<close>: the records and every array of \<open>m0\<close> are in \<open>m\<close>
  what they were in \<open>m0\<close>.
\<close>

definition local_slice :: "nat \<Rightarrow> memory \<Rightarrow> slice \<Rightarrow> bool" where
  "local_slice N m a =
     (off a = 0 \<and>
      (arr a = 0 \<and> len a = 0 \<or>
       N \<le> arr a \<and> arr a < next_array m \<and> len a \<le> length (arrays m (arr a))))"

definition kept :: "memory \<Rightarrow> memory \<Rightarrow> bool" where
  "kept m0 m =
     (objs m = objs m0 \<and> next_array m0 \<le> next_array m \<and>
      (\<forall>id. id < next_array m0 \<longrightarrow> arrays m id = arrays m0 id))"

text \<open>Three records at the addresses 1, 2 and 3, and a slice of the three.\<close>

definition example_memory :: memory where
  "example_memory =
     \<lparr>objs = [1 \<mapsto> \<lparr>Database = ''db1'', RetentionPolicy = ''rp1'', Path = ''1'', Format = b1, Size = 10\<rparr>,
              2 \<mapsto> \<lparr>Database = ''db1'', RetentionPolicy = ''rp1'', Path = ''2'', Format = tsm1, Size = 20\<rparr>,
              3 \<mapsto> \<lparr>Database = ''db1'', RetentionPolicy = ''rp2'', Path = ''3'', Format = bz1, Size = 30\<rparr>],
      arrays = (\<lambda>id. [])(1 := [1, 2, 3]),
      next_array = 2\<rparr>"

definition example_slice :: slice where
  "example_slice = \<lparr>arr = 1, off = 0, len = 3\<rparr>"

definition example_shards :: ShardInfos where
  "example_shards =
     [\<lparr>Database = ''db1'', RetentionPolicy = ''rp1'', Path = ''1'', Format = b1, Size = 10\<rparr>,
      \<lparr>Database = ''db1'', RetentionPolicy = ''rp1'', Path = ''2'', Format = tsm1, Size = 20\<rparr>,
      \<lparr>Database = ''db1'', RetentionPolicy = ''rp2'', Path = ''3'', Format = bz1, Size = 30\<rparr>]"

section \<open>sort.Sort through the interface\<close>

text \<open>
  \<^verbatim>\<open>sort.Sort\<close> knows the slice only through the three methods: it asks
  \<^verbatim>\<open>Len\<close> once, asks \<^verbatim>\<open>Less\<close> about pairs of positions and rearranges by
  calls of \<^verbatim>\<open>Swap\<close>. What the library decides is therefore a list of swaps, chosen
  from the length and from the order of the entries: \<open>swaps n lt\<close>, where \<open>lt a b\<close>
  says whether the entry that stood at position \<open>a\<close> when the call began is less
  than the one that stood at \<open>b\<close>. \<open>arrangement n sw\<close> is where the swaps take the
  entries: its element \<open>k\<close> is the original position of the entry that ends at
  position \<open>k\<close>.

  The contract of the library, \<open>sorts_by_swaps\<close>, speaks of no ShardInfo: for every
  strict weak order on the positions, the swaps stay inside the slice and leave no
  entry after one it is less than. \<open>sort_Sort_by_interface swaps srt\<close> says that
  \<open>srt\<close> is what comes out when these swaps, chosen from the answers of the code's
  \<^verbatim>\<open>Len\<close> and \<^verbatim>\<open>Less\<close>, are carried out by the code's \<^verbatim>\<open>Swap\<close>.
\<close>

definition strict_weak_order :: "nat \<Rightarrow> (nat \<Rightarrow> nat \<Rightarrow> bool) \<Rightarrow> bool" where
  "strict_weak_order n lt =
     ((\<forall>a. a < n \<longrightarrow> \<not> lt a a) \<and>
      (\<forall>a b c. a < n \<and> b < n \<and> c < n \<and> lt a b \<and> lt b c \<longrightarrow> lt a c) \<and>
      (\<forall>a b c. a < n \<and> b < n \<and> c < n \<and> \<not> lt a b \<and> \<not> lt b c \<longrightarrow> \<not> lt a c))"

definition swap_positions :: "nat list \<Rightarrow> nat \<times> nat \<Rightarrow> nat list" where
  "swap_positions p ij = p[fst ij := p ! snd ij, snd ij := p ! fst ij]"

definition arrangement :: "nat \<Rightarrow> (nat \<times> nat) list \<Rightarrow> nat list" where
  "arrangement n sw = foldl swap_positions [0..<n] sw"

definition sorts_by_swaps :: "(nat \<Rightarrow> (nat \<Rightarrow> nat \<Rightarrow> bool) \<Rightarrow> (nat \<times> nat) list) \<Rightarrow> bool" where
  "sorts_by_swaps swaps =
     (\<forall>n lt. strict_weak_order n lt \<longrightarrow>
        (\<forall>ij \<in> set (swaps n lt). fst ij < n \<and> snd ij < n) \<and>
        (\<forall>i j. i < j \<and> j < n \<longrightarrow>
           \<not> lt (arrangement n (swaps n lt) ! j) (arrangement n (swaps n lt) ! i)))"

fun run_Swaps :: "(nat \<times> nat) list \<Rightarrow> ShardInfos \<Rightarrow> panic + ShardInfos" where
  "run_Swaps [] s = Inr s"
| "run_Swaps (ij # sw) s =
     (case Swap s (int (fst ij)) (int (snd ij)) of
        Inl p \<Rightarrow> Inl p
      | Inr s' \<Rightarrow> run_Swaps sw s')"

definition Less_answers :: "ShardInfos \<Rightarrow> nat \<Rightarrow> nat \<Rightarrow> bool" where
  "Less_answers s i j = (Less s (int i) (int j) = Inr True)"

definition sort_Sort_by_interface ::
  "(nat \<Rightarrow> (nat \<Rightarrow> nat \<Rightarrow> bool) \<Rightarrow> (nat \<times> nat) list) \<Rightarrow> (ShardInfos \<Rightarrow> ShardInfos) \<Rightarrow> bool" where
  "sort_Sort_by_interface swaps srt =
     (sorts_by_swaps swaps \<and>
      (\<forall>s. run_Swaps (swaps (nat (Len s)) (Less_answers s)) s = Inr (srt s)))"

text \<open>
  One sort that works this way, to run the functions on: for every position \<open>i\<close> in
  turn it compares each later position \<open>j\<close> with \<open>i\<close> and swaps the two when the
  entry at \<open>j\<close> is less. \<open>exchange_inner\<close> and \<open>exchange_outer\<close> follow the
  entries in \<open>p\<close> while they collect the swaps.
\<close>

fun exchange_inner :: "(nat \<Rightarrow> nat \<Rightarrow> bool) \<Rightarrow> nat \<Rightarrow> nat list \<Rightarrow> nat list \<Rightarrow> (nat \<times> nat) list" where
  "exchange_inner lt i [] p = []"
| "exchange_inner lt i (j # js) p =
     (if lt (p ! j) (p ! i)
      then (i, j) # exchange_inner lt i js (swap_positions p (i, j))
      else exchange_inner lt i js p)"

fun exchange_outer :: "(nat \<Rightarrow> nat \<Rightarrow> bool) \<Rightarrow> nat \<Rightarrow> nat list \<Rightarrow> nat list \<Rightarrow> (nat \<times> nat) list" where
  "exchange_outer lt n [] p = []"
| "exchange_outer lt n (i # is) p =
     exchange_inner lt i [Suc i..<n] p @
     exchange_outer lt n is (foldl swap_positions p (exchange_inner lt i [Suc i..<n] p))"

definition exchange_swaps :: "nat \<Rightarrow> (nat \<Rightarrow> nat \<Rightarrow> bool) \<Rightarrow> (nat \<times> nat) list" where
  "exchange_swaps n lt = exchange_outer lt n [0..<n] [0..<n]"

definition exchange_Sort :: "ShardInfos \<Rightarrow> ShardInfos" where
  "exchange_Sort s =
     (case run_Swaps (exchange_swaps (nat (Len s)) (Less_answers s)) s of
        Inl p \<Rightarrow> s
      | Inr s' \<Rightarrow> s')"

text \<open>
  For the proofs: \<open>positions_ok\<close> says that \<open>p\<close> lists positions of a slice of
  length \<open>n\<close>, and \<open>sorted_before\<close> that no entry follows an entry at a position
  before \<open>i\<close> that it is less than.
\<close>

definition positions_ok :: "nat \<Rightarrow> nat list \<Rightarrow> bool" where
  "positions_ok n p = (length p = n \<and> (\<forall>x. x < n \<longrightarrow> p ! x < n))"

definition sorted_before :: "(nat \<Rightarrow> nat \<Rightarrow> bool) \<Rightarrow> nat \<Rightarrow> nat list \<Rightarrow> nat \<Rightarrow> bool" where
  "sorted_before lt n p i = (\<forall>a b. a < i \<and> a < b \<and> b < n \<longrightarrow> \<not> lt (p ! b) (p ! a))"

section \<open>The other functions on the Go heap\<close>

text \<open>
  Whether a record is ever written after it has been built is a question about the
  heap, so every function of the file that is given a record or a slice is embedded
  on the heap of the previous section as well, as a function that returns the heap
  it leaves behind.

  \<^verbatim>\<open>FormatAsString\<close>, \<^verbatim>\<open>Len\<close>, \<^verbatim>\<open>Less\<close> and \<^verbatim>\<open>Databases\<close> only read:
  they follow the entries of the slice to the records (a nil entry panics) and
  compute what the list versions compute on the records they find. \<^verbatim>\<open>Swap\<close>
  exchanges two cells of the backing array.
\<close>

definition nil_panic :: panic where
  "nil_panic = Panic ''invalid memory address or nil pointer dereference''"

definition FormatAsString_mem :: "memory \<Rightarrow> nat \<Rightarrow> panic + memory \<times> string" where
  "FormatAsString_mem m s =
     (case objs m s of
        None \<Rightarrow> Inl nil_panic
      | Some si \<Rightarrow>
          (case FormatAsString si of
             Inl p \<Rightarrow> Inl p
           | Inr label \<Rightarrow> Inr (m, label)))"

definition Len_mem :: "memory \<Rightarrow> slice \<Rightarrow> memory \<times> int" where
  "Len_mem m s = (m, int (len s))"

definition inRange_mem :: "slice \<Rightarrow> int \<Rightarrow> bool" where
  "inRange_mem s i = (0 \<le> i \<and> i < int (len s))"

definition entry :: "memory \<Rightarrow> slice \<Rightarrow> int \<Rightarrow> nat" where
  "entry m s i = arrays m (arr s) ! (off s + nat i)"

definition Swap_mem :: "memory \<Rightarrow> slice \<Rightarrow> int \<Rightarrow> int \<Rightarrow> panic + memory" where
  "Swap_mem m s i j =
     (if inRange_mem s i \<and> inRange_mem s j
      then Inr (m\<lparr>arrays := (arrays m)
                  (arr s := (arrays m (arr s))
                     [off s + nat i := entry m s j, off s + nat j := entry m s i])\<rparr>)
      else Inl (Panic ''index out of range''))"

definition Less_mem :: "memory \<Rightarrow> slice \<Rightarrow> int \<Rightarrow> int \<Rightarrow> panic + memory \<times> bool" where
  "Less_mem m s i j =
     (if inRange_mem s i \<and> inRange_mem s j
      then
        (case (objs m (entry m s i), objs m (entry m s j)) of
           (Some si, Some sj) \<Rightarrow>
             Inr (m,
               if Database si = Database sj
               then (if RetentionPolicy si = RetentionPolicy sj
                     then Path si < Path si
                     else RetentionPolicy si < RetentionPolicy sj)
               else Database si < Database sj)
         | _ \<Rightarrow> Inl nil_panic)
      else Inl (Panic ''index out of range''))"

definition Databases_mem ::
  "(string list \<Rightarrow> string list) \<Rightarrow> memory \<Rightarrow> slice \<Rightarrow> panic + memory \<times> string list" where
  "Databases_mem range_order m s =
     (case those (contents m s) of
        None \<Rightarrow> Inl nil_panic
      | Some xs \<Rightarrow> Inr (m, Databases range_order xs))"

text \<open>
  \<^verbatim>\<open>sort.Sort\<close> on the heap: the swaps the library chooses, carried out by
  \<^verbatim>\<open>Swap\<close>. On a slice of at most one entry the library calls neither \<^verbatim>\<open>Less\<close>
  nor \<^verbatim>\<open>Swap\<close>; on a longer one it compares every entry, so a nil entry panics.
\<close>

fun run_Swaps_mem :: "(nat \<times> nat) list \<Rightarrow> memory \<Rightarrow> slice \<Rightarrow> panic + memory" where
  "run_Swaps_mem [] m s = Inr m"
| "run_Swaps_mem (ij # sw) m s =
     (case Swap_mem m s (int (fst ij)) (int (snd ij)) of
        Inl p \<Rightarrow> Inl p
      | Inr m' \<Rightarrow> run_Swaps_mem sw m' s)"

definition sort_Sort_mem ::
  "(nat \<Rightarrow> (nat \<Rightarrow> nat \<Rightarrow> bool) \<Rightarrow> (nat \<times> nat) list) \<Rightarrow> memory \<Rightarrow> slice \<Rightarrow> panic + memory" where
  "sort_Sort_mem swaps m s =
     (if len s \<le> 1 then Inr m
      else
        (case those (contents m s) of
           None \<Rightarrow> Inl nil_panic
         | Some xs \<Rightarrow> run_Swaps_mem (swaps (len s) (Less_answers xs)) m s))"

text \<open>
  \<^verbatim>\<open>&ShardInfo{...}\<close> puts a new record at the next free address; records and
  arrays are numbered by the same counter. The loops of \<^verbatim>\<open>Shards\<close> build each
  record this way and append its address to the slice \<open>shardInfos\<close>, which starts
  as nil. The heap is returned also when a loop ends with an error.
\<close>

definition new_ShardInfo :: "memory \<Rightarrow> ShardInfo \<Rightarrow> memory \<times> nat" where
  "new_ShardInfo m si =
     (m\<lparr>objs := (objs m)(next_array m \<mapsto> si), next_array := Suc (next_array m)\<rparr>,
      next_array m)"

fun Shards_shards_mem ::
  "(nat \<Rightarrow> nat) \<Rightarrow> 'e env \<Rightarrow> Database \<Rightarrow> string \<Rightarrow> string list \<Rightarrow> memory \<Rightarrow> slice \<Rightarrow>
   memory \<times> ('e + slice)" where
  "Shards_shards_mem grow w d rp [] m shardInfos = (m, Inr shardInfos)"
| "Shards_shards_mem grow w d rp (sh # shards) m shardInfos =
     (case shardFormat w (filepath_Join w [path d, rp, sh]) of
        (fmt, sz, Some err) \<Rightarrow> (m, Inl err)
      | (fmt, sz, None) \<Rightarrow>
          (case new_ShardInfo m
                  \<lparr>Database = Name w d, RetentionPolicy = path_Base w rp, Path = sh,
                   Format = fmt, Size = sz\<rparr> of
             (m1, si) \<Rightarrow>
               (case append_slice grow m1 shardInfos si of
                  (m2, shardInfos') \<Rightarrow> Shards_shards_mem grow w d rp shards m2 shardInfos')))"

fun Shards_rps_mem ::
  "(nat \<Rightarrow> nat) \<Rightarrow> 'e env \<Rightarrow> Database \<Rightarrow> string list \<Rightarrow> memory \<Rightarrow> slice \<Rightarrow>
   memory \<times> ('e + slice)" where
  "Shards_rps_mem grow w d [] m shardInfos = (m, Inr shardInfos)"
| "Shards_rps_mem grow w d (rp # rps) m shardInfos =
     (case os_Open w (filepath_Join w [path d, rp]) of
        Inl err \<Rightarrow> (m, Inl err)
      | Inr rpfd \<Rightarrow>
          (case Readdirnames w rpfd (- 1) of
             (shards, err) \<Rightarrow>
               (case Shards_shards_mem grow w d rp shards m shardInfos of
                  (m', Inl err') \<Rightarrow> (m', Inl err')
                | (m', Inr shardInfos') \<Rightarrow> Shards_rps_mem grow w d rps m' shardInfos')))"

definition Shards_mem ::
  "(nat \<Rightarrow> nat) \<Rightarrow> (nat \<Rightarrow> (nat \<Rightarrow> nat \<Rightarrow> bool) \<Rightarrow> (nat \<times> nat) list) \<Rightarrow> 'e env \<Rightarrow> Database \<Rightarrow>
   memory \<Rightarrow> panic + memory \<times> slice \<times> 'e option" where
  "Shards_mem grow swaps w d m =
     (case os_Open w (path d) of
        Inl err \<Rightarrow> Inr (m, nil_slice, Some err)
      | Inr fd \<Rightarrow>
          (case Readdirnames w fd (- 1) of
             (rps, Some err) \<Rightarrow> Inr (m, nil_slice, Some err)
           | (rps, None) \<Rightarrow>
               (case Shards_rps_mem grow w d rps m nil_slice of
                  (m', Inl err) \<Rightarrow> Inr (m', nil_slice, Some err)
                | (m', Inr shardInfos) \<Rightarrow>
                    (case sort_Sort_mem swaps m' shardInfos of
                       Inl p \<Rightarrow> Inl p
                     | Inr m'' \<Rightarrow> Inr (m'', shardInfos, None)))))"

text \<open>
  In a well-formed heap the addresses that are still free hold no record
  (\<open>fresh_ok\<close>). \<open>created_ok m m'\<close>: every record of \<open>m\<close> is in \<open>m'\<close> what it
  was in \<open>m\<close>, and every record that \<open>m'\<close> has in addition has one of the three
  formats.
\<close>

definition fresh_ok :: "memory \<Rightarrow> bool" where
  "fresh_ok m = (\<forall>p. next_array m \<le> p \<longrightarrow> objs m p = None)"

definition created_ok :: "memory \<Rightarrow> memory \<Rightarrow> bool" where
  "created_ok m m' =
     (objs m \<subseteq>\<^sub>m objs m' \<and> fresh_ok m' \<and> next_array m \<le> next_array m' \<and>
      (\<forall>p x. objs m p = None \<and> objs m' p = Some x \<longrightarrow> Format x \<in> {b1, bz1, tsm1}))"

text \<open>
  The heap before anything is allocated, and the heap after the loops of
  \<^verbatim>\<open>Shards\<close> have run on the example database: three records, and the three
  backing arrays that \<^verbatim>\<open>append\<close> has allocated, the last one with the cells
  \<open>cs\<close>.
\<close>

definition empty_memory :: memory where
  "empty_memory = \<lparr>objs = Map.empty, arrays = (\<lambda>id. []), next_array = 1\<rparr>"

definition example_scan_memory :: "nat list \<Rightarrow> memory" where
  "example_scan_memory cs =
     \<lparr>objs = [1 \<mapsto> \<lparr>Database = ''db1'', RetentionPolicy = ''rp2'', Path = ''s_dir'',
                    Format = tsm1, Size = 4096\<rparr>,
              3 \<mapsto> \<lparr>Database = ''db1'', RetentionPolicy = ''rp1'', Path = ''s_flat'',
                    Format = b1, Size = 65536\<rparr>,
              5 \<mapsto> \<lparr>Database = ''db1'', RetentionPolicy = ''rp1'', Path = ''s_dir'',
                    Format = tsm1, Size = 4096\<rparr>],
      arrays = (\<lambda>id. [])(2 := [1], 4 := [1, 3], 6 := cs),
      next_array = 7\<rparr>"

section \<open>Supporting lemmas\<close>

lemma Filter_loop_append:
  "Filter_loop s fmt a = a @ filter (\<lambda>ss. Format ss \<noteq> fmt) s"
  by (induction s arbitrary: a) simp_all

lemma Databases_dbk_append: "Databases_dbk ks dbk = dbk @ ks"
  by (induction ks arbitrary: dbk) simp_all

lemma Databases_dbm_distinct:
  "distinct (map fst dbm) \<Longrightarrow> distinct (map fst (Databases_dbm s dbm))"
  by (induction s arbitrary: dbm) (simp_all add: distinct_update)

lemma Databases_dbm_keys:
  "fst ` set (Databases_dbm s dbm) = fst ` set dbm \<union> Database ` set s"
  by (induction s arbitrary: dbm) (auto simp: dom_update)

lemma rev_range_contract: "range_contract rev"
  by (simp add: range_contract_def)

text \<open>Whatever the environment answers, the format \<^verbatim>\<open>shardFormat\<close> returns is one of the three.\<close>

lemma shardFormat_format: "fst (shardFormat w pth) \<in> {b1, bz1, tsm1}"
  by (auto simp: shardFormat_def View_def shardFormat_view_def b1_def
      split: sum.splits option.splits prod.splits if_splits)

text \<open>The failures of \<^verbatim>\<open>shardFormat\<close>: each returns the zero format, or the format so far, with the error.\<close>

lemma shardFormat_open_error:
  "os_Open w pth = Inl e \<Longrightarrow> shardFormat w pth = (0, 0, Some e)"
  by (simp add: shardFormat_def)

lemma shardFormat_stat_error:
  "os_Open w pth = Inr f \<Longrightarrow> Stat w f = Inl e \<Longrightarrow> shardFormat w pth = (0, 0, Some e)"
  by (simp add: shardFormat_def)

lemma shardFormat_bolt_error:
  "os_Open w pth = Inr f \<Longrightarrow> Stat w f = Inr fi \<Longrightarrow> \<not> IsDir (Mode fi) \<Longrightarrow>
   bolt_Open w pth 438 \<lparr>Timeout = 1 * Second\<rparr> = Inl e \<Longrightarrow>
   shardFormat w pth = (0, 0, Some e)"
  by (simp add: shardFormat_def)

lemma shardFormat_begin_error:
  "os_Open w pth = Inr f \<Longrightarrow> Stat w f = Inr fi \<Longrightarrow> \<not> IsDir (Mode fi) \<Longrightarrow>
   bolt_Open w pth 438 \<lparr>Timeout = 1 * Second\<rparr> = Inr db \<Longrightarrow> Begin db = Inl e \<Longrightarrow>
   shardFormat w pth = (0, FileInfo.Size fi, Some e)"
  by (simp add: shardFormat_def View_def)

lemma Shards_shards_formats:
  assumes "Shards_shards w d rp shards acc = Inr infos"
    and "\<forall>si \<in> set acc. Format si \<in> {b1, bz1, tsm1}"
  shows "\<forall>si \<in> set infos. Format si \<in> {b1, bz1, tsm1}"
  using assms
proof (induction shards arbitrary: acc)
  case Nil
  then show ?case by simp
next
  case (Cons sh shards)
  obtain fmt sz err where sf: "shardFormat w (filepath_Join w [path d, rp, sh]) = (fmt, sz, err)"
    by (cases "shardFormat w (filepath_Join w [path d, rp, sh])") auto
  have fmt: "fmt \<in> {b1, bz1, tsm1}"
    using shardFormat_format [of w "filepath_Join w [path d, rp, sh]"] sf by simp
  show ?case
  proof (cases err)
    case None
    with Cons.prems sf have step:
      "Shards_shards w d rp shards
         (acc @ [\<lparr>Database = Name w d, RetentionPolicy = path_Base w rp, Path = sh,
                  Format = fmt, Size = sz\<rparr>]) = Inr infos"
      by simp
    show ?thesis
      using Cons.prems(2) fmt by (intro Cons.IH [OF step]) auto
  next
    case (Some e)
    with Cons.prems sf show ?thesis by simp
  qed
qed

lemma Shards_rps_formats:
  assumes "Shards_rps w d rps acc = Inr infos"
    and "\<forall>si \<in> set acc. Format si \<in> {b1, bz1, tsm1}"
  shows "\<forall>si \<in> set infos. Format si \<in> {b1, bz1, tsm1}"
  using assms
proof (induction rps arbitrary: acc)
  case Nil
  then show ?case by simp
next
  case (Cons rp rps)
  from Cons.prems(1) obtain rpfd shards err acc'
    where "Readdirnames w rpfd (- 1) = (shards, err)"
      and inner: "Shards_shards w d rp shards acc = Inr acc'"
      and rest: "Shards_rps w d rps acc' = Inr infos"
    by (auto split: sum.splits prod.splits)
  from Shards_shards_formats [OF inner Cons.prems(2)] Cons.IH [OF rest]
  show ?case by blast
qed

text \<open>A successful call returns the sorted list of what the loops have built.\<close>

lemma Shards_success_built:
  assumes "Shards w d = (infos, None)"
  shows "\<exists>rps built. Shards_rps w d rps [] = Inr built \<and> infos = sort_Sort w built"
  using assms
  by (auto simp: Shards_def split: sum.splits prod.splits option.splits)

text \<open>The failures that \<^verbatim>\<open>Shards\<close> does pass on, and what it returns with an error.\<close>

lemma Shards_root_open_error:
  "os_Open w (path d) = Inl e \<Longrightarrow> Shards w d = ([], Some e)"
  by (simp add: Shards_def)

lemma Shards_root_listing_error:
  "os_Open w (path d) = Inr fd \<Longrightarrow> Readdirnames w fd (- 1) = (rps, Some e) \<Longrightarrow>
   Shards w d = ([], Some e)"
  by (simp add: Shards_def)

lemma Shards_rps_open_error:
  "os_Open w (filepath_Join w [path d, rp]) = Inl e \<Longrightarrow>
   Shards_rps w d (rp # rps) acc = Inl e"
  by simp

lemma Shards_shards_format_error:
  "shardFormat w (filepath_Join w [path d, rp, sh]) = (fmt, sz, Some e) \<Longrightarrow>
   Shards_shards w d rp (sh # shards) acc = Inl e"
  by simp

lemma Shards_error_no_partial:
  "Shards w d = (infos, Some e) \<Longrightarrow> infos = []"
  by (auto simp: Shards_def split: sum.splits prod.splits option.splits)

text \<open>What the contract of \<^verbatim>\<open>sort.Sort\<close> gives for \<^verbatim>\<open>Less\<close>.\<close>

lemma sort_Sort_contract_set:
  "sort_Sort_contract srt \<Longrightarrow> set (srt s) = set s"
  by (metis sort_Sort_contract_def mset_eq_setD)

lemma Less_False_iff:
  assumes "inRange s i" and "inRange s j"
  shows "Less s j i = Inr False \<longleftrightarrow>
     Database (s ! nat i) \<le> Database (s ! nat j) \<and>
     (Database (s ! nat i) = Database (s ! nat j) \<longrightarrow>
        RetentionPolicy (s ! nat i) \<le> RetentionPolicy (s ! nat j))"
  using assms by (auto simp: Less_def)

lemma sort_Sort_contract_sorted:
  assumes "sort_Sort_contract srt"
  shows "sorted_wrt (\<lambda>a b. Database a \<le> Database b \<and>
           (Database a = Database b \<longrightarrow> RetentionPolicy a \<le> RetentionPolicy b)) (srt s)"
proof -
  have "Database (srt s ! i) \<le> Database (srt s ! j) \<and>
        (Database (srt s ! i) = Database (srt s ! j) \<longrightarrow>
           RetentionPolicy (srt s ! i) \<le> RetentionPolicy (srt s ! j))"
    if "i < j" and "j < length (srt s)" for i j
  proof -
    have "Less (srt s) (int j) (int i) = Inr False"
      using assms that by (simp add: sort_Sort_contract_def)
    moreover have "inRange (srt s) (int i)" and "inRange (srt s) (int j)"
      using that by (simp_all add: inRange_def Len_def)
    ultimately show ?thesis
      using Less_False_iff [of "srt s" "int i" "int j"] by simp
  qed
  then show ?thesis
    by (simp add: sorted_wrt_iff_nth_less)
qed

text \<open>
  \<^verbatim>\<open>Less\<close> is a strict weak order on the entries of a slice, which is what
  \<^verbatim>\<open>sort.Sort\<close> asks of it.
\<close>

lemma Less_strict_weak_order:
  assumes "inRange s i" and "inRange s j" and "inRange s k"
  shows "Less s i i = Inr False"
    and "Less s i j = Inr True \<Longrightarrow> Less s j k = Inr True \<Longrightarrow> Less s i k = Inr True"
    and "Less s i j = Inr False \<Longrightarrow> Less s j k = Inr False \<Longrightarrow> Less s i k = Inr False"
  using assms by (auto simp: Less_def split: if_splits)

text \<open>A sorted rearrangement of a list of strings is the list \<open>sort_Strings\<close> returns.\<close>

lemma sort_Strings_unique:
  "mset ys = mset xs \<Longrightarrow> sorted ys \<Longrightarrow> ys = sort_Strings xs"
  unfolding sort_Strings_def by (rule properties_for_sort [symmetric])

lemma sort_by_key_contract: "sort_Sort_contract sort_by_key"
  unfolding sort_Sort_contract_def
proof (intro allI conjI impI)
  fix s
  show "mset (sort_by_key s) = mset s"
    by (simp add: sort_by_key_def)
next
  fix s i j
  assume ij: "i < j \<and> j < length (sort_by_key s)"
  let ?k = "\<lambda>x. (Database x, RetentionPolicy x)"
  have "sorted (map ?k (sort_by_key s))"
    by (simp add: sort_by_key_def)
  then have "?k (sort_by_key s ! i) \<le> ?k (sort_by_key s ! j)"
    using ij by (simp add: sorted_iff_nth_mono)
  then show "Less (sort_by_key s) (int j) (int i) = Inr False"
    using ij by (auto simp: Less_def inRange_def Len_def less_eq_prod_def less_prod_def)
qed

text \<open>The concrete environment, evaluated.\<close>

lemma example_env_sort_contract: "sort_Sort_contract (sort_Sort (example_env listing tx))"
  by (simp add: example_env_def sort_by_key_contract)

lemma example_shardFormat_dir:
  "path_Base_go pth = ''s_dir'' \<Longrightarrow>
   shardFormat (example_env listing tx) pth = (tsm1, 4096, None)"
  by (simp add: shardFormat_def example_env_def IsDir_def ModeDir_def)

lemma example_shardFormat_flat:
  "path_Base_go pth \<noteq> ''s_dir'' \<Longrightarrow>
   shardFormat (example_env listing Map.empty) pth = (b1, 65536, None)"
  by (simp add: shardFormat_def example_env_def IsDir_def ModeDir_def View_def
      shardFormat_view_def Bucket_def)

lemma example_Shards_rps_ok:
  "Shards_rps (example_env listing_ok Map.empty) (NewDatabase ''/data/db1'') [''rp2'', ''rp1''] [] =
     Inr [\<lparr>Database = ''db1'', RetentionPolicy = ''rp2'', Path = ''s_dir'', Format = tsm1, Size = 4096\<rparr>,
          \<lparr>Database = ''db1'', RetentionPolicy = ''rp1'', Path = ''s_flat'', Format = b1, Size = 65536\<rparr>,
          \<lparr>Database = ''db1'', RetentionPolicy = ''rp1'', Path = ''s_dir'', Format = tsm1, Size = 4096\<rparr>]"
proof -
  let ?w = "example_env listing_ok Map.empty"
  have sel: "os_Open ?w = (\<lambda>p. Inr (File p))"
    "Readdirnames ?w = (\<lambda>f n. case f of File p \<Rightarrow> listing_ok p)"
    "filepath_Join ?w = join_slash" "path_Base ?w = path_Base_go"
    by (simp_all add: example_env_def)
  have d: "shardFormat ?w ''/data/db1/rp2/s_dir'' = (tsm1, 4096, None)"
    "shardFormat ?w ''/data/db1/rp1/s_dir'' = (tsm1, 4096, None)"
    by (rule example_shardFormat_dir, simp add: path_Base_go_def)+
  have f: "shardFormat ?w ''/data/db1/rp1/s_flat'' = (b1, 65536, None)"
    by (rule example_shardFormat_flat) (simp add: path_Base_go_def)
  show ?thesis
    by (simp add: NewDatabase_def Name_def sel listing_ok_def d f path_Base_go_def)
qed

lemma example_Shards_ok:
  "Shards (example_env listing_ok Map.empty) (NewDatabase ''/data/db1'') =
     ([\<lparr>Database = ''db1'', RetentionPolicy = ''rp1'', Path = ''s_flat'', Format = b1, Size = 65536\<rparr>,
       \<lparr>Database = ''db1'', RetentionPolicy = ''rp1'', Path = ''s_dir'', Format = tsm1, Size = 4096\<rparr>,
       \<lparr>Database = ''db1'', RetentionPolicy = ''rp2'', Path = ''s_dir'', Format = tsm1, Size = 4096\<rparr>],
      None)"
proof -
  let ?w = "example_env listing_ok Map.empty"
  have sel: "os_Open ?w = (\<lambda>p. Inr (File p))"
    "Readdirnames ?w = (\<lambda>f n. case f of File p \<Rightarrow> listing_ok p)"
    "sort_Sort ?w = sort_by_key"
    by (simp_all add: example_env_def)
  have ls: "listing_ok ''/data/db1'' = ([''rp2'', ''rp1''], None)"
    by (simp add: listing_ok_def)
  have p: "path (NewDatabase ''/data/db1'') = ''/data/db1''"
    by (simp add: NewDatabase_def)
  show ?thesis
    by (simp add: Shards_def sel p ls example_Shards_rps_ok sort_by_key_def
        del: Shards_rps.simps)
qed

text \<open>The loop of \<^verbatim>\<open>Filter\<close> on the heap.\<close>

lemma append_slice_kept:
  assumes "mem_ok m0" and "kept m0 m" and "local_slice (next_array m0) m a"
    and "contents m a = map Some acc" and "objs m p = Some x"
    and "append_slice grow m a p = (m', a')"
  shows "kept m0 m' \<and> local_slice (next_array m0) m' a' \<and> contents m' a' = map Some (acc @ [x])"
proof (cases "len a < cap m a")
  case True
  then have fresh: "next_array m0 \<le> arr a" "arr a < next_array m" "off a = 0"
      "len a < length (arrays m (arr a))"
    using assms(1,2,3) by (auto simp: cap_def local_slice_def mem_ok_def kept_def)
  have m': "m' = m\<lparr>arrays := (arrays m)(arr a := (arrays m (arr a))[len a := x'])\<rparr>" if "x' = p" for x'
    using assms(6) True fresh that by (simp add: append_slice_def)
  have a': "a' = a\<lparr>len := Suc (len a)\<rparr>"
    using assms(6) True by (auto simp: append_slice_def)
  have k: "kept m0 m'"
    using assms(2) fresh m'[OF refl] by (auto simp: kept_def)
  have l: "local_slice (next_array m0) m' a'"
    using fresh m'[OF refl] a' by (simp add: local_slice_def)
  have "cells m' a' = cells m a @ [p]"
    using fresh m'[OF refl] a' by (simp add: cells_def take_Suc_conv_app_nth)
  then have "contents m' a' = map Some (acc @ [x])"
    using assms(4,5) m'[OF refl] by (simp add: contents_def)
  with k l show ?thesis by simp
next
  case False
  then have m': "m' = m\<lparr>arrays := (arrays m)
                 (next_array m := cells m a @ p # replicate (grow (cap m a) - Suc (len a)) 0),
              next_array := Suc (next_array m)\<rparr>"
    and a': "a' = \<lparr>arr = next_array m, off = 0, len = Suc (len a)\<rparr>"
    using assms(6) by (auto simp: append_slice_def)
  have la: "length (cells m a) = len a"
    using assms(1,2,3) by (auto simp: cells_def local_slice_def)
  have k: "kept m0 m'"
    using assms(2) m' by (auto simp: kept_def)
  have l: "local_slice (next_array m0) m' a'"
    using assms(2) m' a' la by (simp add: local_slice_def kept_def)
  have "cells m' a' = cells m a @ [p]"
    using m' a' la by (simp add: cells_def)
  then have "contents m' a' = map Some (acc @ [x])"
    using assms(4,5) m' by (simp add: contents_def)
  with k l show ?thesis by simp
qed


lemma contents_length:
  assumes "slice_ok m s" and "contents m s = map Some xs"
  shows "length xs = len s"
proof -
  have "length (contents m s) = len s"
    using assms(1) by (auto simp: contents_def cells_def slice_ok_def)
  then show ?thesis
    using assms(2) by simp
qed

lemma Filter_mem_loop_kept:
  assumes "mem_ok m0" and "slice_ok m0 s" and "contents m0 s = map Some xs"
    and "i + k = len s"
    and "kept m0 m" and "local_slice (next_array m0) m a" and "contents m a = map Some acc"
  shows "\<exists>m' a'. Filter_mem_loop grow fmt s i k m a = Inr (m', a') \<and> kept m0 m' \<and>
           contents m' a' = map Some (acc @ filter (\<lambda>ss. Format ss \<noteq> fmt) (drop i xs))"
  using assms(4-)
proof (induction k arbitrary: i m a acc)
  case 0
  have "length xs = len s"
    using assms(2,3) by (rule contents_length)
  with 0 show ?case by simp
next
  case (Suc k)
  have lx: "length xs = len s"
    using assms(2,3) by (rule contents_length)
  have i: "i < len s"
    using Suc.prems(1) by simp
  let ?p = "arrays m (arr s) ! (off s + i)"
  have same: "arrays m (arr s) = arrays m0 (arr s)"
    using Suc.prems(2) assms(2) by (simp add: kept_def slice_ok_def)
  have "i < length (cells m0 s)"
    using i assms(2) by (auto simp: cells_def slice_ok_def)
  moreover have "cells m0 s ! i = arrays m0 (arr s) ! (off s + i)"
    using i assms(2) by (simp add: cells_def slice_ok_def)
  ultimately have "contents m0 s ! i = objs m0 (arrays m0 (arr s) ! (off s + i))"
    by (simp add: contents_def)
  then have p: "objs m ?p = Some (xs ! i)"
    using assms(3) i lx same Suc.prems(2) by (simp add: kept_def)
  have dr: "drop i xs = xs ! i # drop (Suc i) xs"
    using i lx by (simp add: Cons_nth_drop_Suc)
  show ?case
  proof (cases "Format (xs ! i) = fmt")
    case True
    have "\<exists>m' a'. Filter_mem_loop grow fmt s (Suc i) k m a = Inr (m', a') \<and> kept m0 m' \<and>
           contents m' a' = map Some (acc @ filter (\<lambda>ss. Format ss \<noteq> fmt) (drop (Suc i) xs))"
      using Suc.prems by (intro Suc.IH) simp_all
    then show ?thesis
      using True p dr by simp
  next
    case False
    obtain m1 a1 where ap: "append_slice grow m a ?p = (m1, a1)"
      by (cases "append_slice grow m a ?p") auto
    from append_slice_kept [OF assms(1) Suc.prems(2,3,4) p ap]
    have 1: "kept m0 m1" "local_slice (next_array m0) m1 a1"
      "contents m1 a1 = map Some (acc @ [xs ! i])"
      by simp_all
    have "\<exists>m' a'. Filter_mem_loop grow fmt s (Suc i) k m1 a1 = Inr (m', a') \<and> kept m0 m' \<and>
           contents m' a' =
             map Some ((acc @ [xs ! i]) @ filter (\<lambda>ss. Format ss \<noteq> fmt) (drop (Suc i) xs))"
      using Suc.prems(1) 1 by (intro Suc.IH) simp_all
    then show ?thesis
      using False p dr ap by simp
  qed
qed

lemma kept_refl: "kept m m"
  by (simp add: kept_def)

lemma nil_slice_local: "local_slice N m nil_slice"
  by (simp add: local_slice_def nil_slice_def)

lemma nil_slice_contents: "contents m nil_slice = map Some []"
  by (simp add: contents_def cells_def nil_slice_def)

lemma Filter_mem_result:
  assumes "mem_ok m" and "slice_ok m s" and "contents m s = map Some xs"
  shows "\<exists>m' a. Filter_mem grow m s fmt = Inr (m', a) \<and>
           contents m' a = map Some (filter (\<lambda>ss. Format ss \<noteq> fmt) xs) \<and>
           contents m' s = contents m s \<and> objs m' = objs m \<and>
           (\<forall>id. id < next_array m \<longrightarrow> arrays m' id = arrays m id)"
proof -
  have "0 + len s = len s" by simp
  from Filter_mem_loop_kept [OF assms this kept_refl nil_slice_local nil_slice_contents,
      of grow fmt]
  obtain m' a where r: "Filter_mem_loop grow fmt s 0 (len s) m nil_slice = Inr (m', a)"
    and k: "kept m m'"
    and c: "contents m' a = map Some (filter (\<lambda>ss. Format ss \<noteq> fmt) xs)"
    by auto
  have "contents m' s = contents m s"
    using k assms(2) by (simp add: contents_def cells_def kept_def slice_ok_def)
  then show ?thesis
    using r k c by (auto simp: Filter_mem_def kept_def)
qed

text \<open>The exchange sort meets the contract of the library.\<close>

lemma swap_positions_ok:
  "positions_ok n p \<Longrightarrow> i < n \<Longrightarrow> j < n \<Longrightarrow> positions_ok n (swap_positions p (i, j))"
  by (auto simp: positions_ok_def swap_positions_def nth_list_update)

lemma swap_positions_nth:
  "length p = n \<Longrightarrow> i < n \<Longrightarrow> j < n \<Longrightarrow> k < n \<Longrightarrow>
   swap_positions p (i, j) ! k = (if k = j then p ! i else if k = i then p ! j else p ! k)"
  by (auto simp: swap_positions_def nth_list_update)

lemma exchange_inner_correct:
  assumes "strict_weak_order n lt" and "i < n"
    and "positions_ok n p" and "sorted_before lt n p i"
    and "distinct js" and "\<forall>j \<in> set js. i < j \<and> j < n"
    and "\<forall>k \<in> V. i < k \<and> k < n \<and> k \<notin> set js \<and> \<not> lt (p ! k) (p ! i)"
  shows "positions_ok n (foldl swap_positions p (exchange_inner lt i js p)) \<and>
         sorted_before lt n (foldl swap_positions p (exchange_inner lt i js p)) i \<and>
         (\<forall>ij \<in> set (exchange_inner lt i js p). fst ij < n \<and> snd ij < n) \<and>
         (\<forall>k \<in> V \<union> set js.
            \<not> lt (foldl swap_positions p (exchange_inner lt i js p) ! k)
                 (foldl swap_positions p (exchange_inner lt i js p) ! i))"
  using assms(3-)
proof (induction js arbitrary: p V)
  case Nil
  then show ?case by simp
next
  case (Cons j js)
  have j: "i < j" "j < n" "j \<notin> set js" "distinct js"
    using Cons.prems(3,4) by auto
  have len: "length p = n" and rng: "\<And>x. x < n \<Longrightarrow> p ! x < n"
    using Cons.prems(1) by (auto simp: positions_ok_def)
  have irr: "\<And>a. a < n \<Longrightarrow> \<not> lt a a"
    and tr: "\<And>a b c. a < n \<Longrightarrow> b < n \<Longrightarrow> c < n \<Longrightarrow> lt a b \<Longrightarrow> lt b c \<Longrightarrow> lt a c"
    using assms(1) unfolding strict_weak_order_def by blast+
  show ?case
  proof (cases "lt (p ! j) (p ! i)")
    case False
    have "\<forall>k \<in> insert j V. i < k \<and> k < n \<and> k \<notin> set js \<and> \<not> lt (p ! k) (p ! i)"
      using Cons.prems(5) j False by auto
    from Cons.IH [OF Cons.prems(1,2) j(4) _ this] Cons.prems(4)
    show ?thesis using False by simp
  next
    case True
    let ?q = "swap_positions p (i, j)"
    have q_ok: "positions_ok n ?q"
      using Cons.prems(1) assms(2) j by (intro swap_positions_ok) auto
    have qn: "\<And>k. k < n \<Longrightarrow> ?q ! k = (if k = j then p ! i else if k = i then p ! j else p ! k)"
      using swap_positions_nth [OF len assms(2) j(2)] by simp
    have q_sb: "sorted_before lt n ?q i"
      unfolding sorted_before_def
    proof (intro allI impI)
      fix a b assume ab: "a < i \<and> a < b \<and> b < n"
      then have "a < n" "a \<noteq> i" "a \<noteq> j" using assms(2) j by auto
      then have qa: "?q ! a = p ! a" using qn by simp
      have "\<not> lt (p ! b) (p ! a)" "\<not> lt (p ! i) (p ! a)" "\<not> lt (p ! j) (p ! a)"
        using Cons.prems(2) ab assms(2) j unfolding sorted_before_def by auto
      then show "\<not> lt (?q ! b) (?q ! a)"
        using qa qn [of b] ab by auto
    qed
    have V': "\<forall>k \<in> insert j V. i < k \<and> k < n \<and> k \<notin> set js \<and> \<not> lt (?q ! k) (?q ! i)"
    proof
      fix k assume k: "k \<in> insert j V"
      show "i < k \<and> k < n \<and> k \<notin> set js \<and> \<not> lt (?q ! k) (?q ! i)"
      proof (cases "k = j")
        case True
        have "\<not> lt (p ! i) (p ! j)"
          using tr [of "p ! i" "p ! j" "p ! i"] irr [of "p ! i"] rng assms(2) j \<open>lt (p ! j) (p ! i)\<close>
          by blast
        then show ?thesis using True j qn assms(2) by simp
      next
        case False
        then have kV: "k \<in> V" using k by simp
        then have kk: "i < k" "k < n" "k \<notin> set (j # js)" "\<not> lt (p ! k) (p ! i)"
          using Cons.prems(5) by auto
        have "\<not> lt (p ! k) (p ! j)"
          using tr [of "p ! k" "p ! j" "p ! i"] rng assms(2) j kk \<open>lt (p ! j) (p ! i)\<close> by blast
        then show ?thesis using kk qn assms(2) by auto
      qed
    qed
    from Cons.IH [OF q_ok q_sb j(4) _ V'] Cons.prems(4) assms(2) j
    show ?thesis using True by simp
  qed
qed


lemma exchange_outer_correct:
  assumes "strict_weak_order n lt"
    and "positions_ok n p" and "sorted_before lt n p i0" and "is = [i0..<n]"
  shows "positions_ok n (foldl swap_positions p (exchange_outer lt n is p)) \<and>
         sorted_before lt n (foldl swap_positions p (exchange_outer lt n is p)) n \<and>
         (\<forall>ij \<in> set (exchange_outer lt n is p). fst ij < n \<and> snd ij < n)"
  using assms(2-)
proof (induction "is" arbitrary: p i0)
  case Nil
  from Nil.prems(3) [symmetric] have "n \<le> i0"
    by auto
  then have "sorted_before lt n p n"
    using Nil.prems(2) unfolding sorted_before_def by (meson less_le_trans less_trans)
  then show ?case using Nil.prems(1) by simp
next
  case (Cons i "is")
  from Cons.prems(3) [symmetric] have i: "i = i0" "i0 < n" "is = [Suc i0..<n]"
    by (auto simp: upt_eq_Cons_conv)
  let ?sw = "exchange_inner lt i [Suc i..<n] p"
  let ?q = "foldl swap_positions p ?sw"
  have inner: "positions_ok n ?q \<and> sorted_before lt n ?q i \<and>
         (\<forall>ij \<in> set ?sw. fst ij < n \<and> snd ij < n) \<and>
         (\<forall>k \<in> {} \<union> set [Suc i..<n]. \<not> lt (?q ! k) (?q ! i))"
    using assms(1) i Cons.prems(1,2)
    by (intro exchange_inner_correct) auto
  have "sorted_before lt n ?q (Suc i0)"
    unfolding sorted_before_def
  proof (intro allI impI)
    fix a b assume ab: "a < Suc i0 \<and> a < b \<and> b < n"
    show "\<not> lt (?q ! b) (?q ! a)"
    proof (cases "a = i")
      case True
      then show ?thesis using inner ab by auto
    next
      case False
      then have "a < i" using ab i by simp
      then show ?thesis using inner ab unfolding sorted_before_def by blast
    qed
  qed
  from Cons.IH [OF _ this i(3)] inner
  show ?case by auto
qed

lemma exchange_swaps_sorts: "sorts_by_swaps exchange_swaps"
  unfolding sorts_by_swaps_def
proof (intro allI impI)
  fix n lt assume swo: "strict_weak_order n lt"
  have "positions_ok n [0..<n]"
    by (simp add: positions_ok_def)
  moreover have "sorted_before lt n [0..<n] 0"
    by (simp add: sorted_before_def)
  ultimately have "positions_ok n (arrangement n (exchange_swaps n lt)) \<and>
      sorted_before lt n (arrangement n (exchange_swaps n lt)) n \<and>
      (\<forall>ij \<in> set (exchange_swaps n lt). fst ij < n \<and> snd ij < n)"
    unfolding arrangement_def exchange_swaps_def
    by (intro exchange_outer_correct [OF swo]) simp_all
  then show "(\<forall>ij \<in> set (exchange_swaps n lt). fst ij < n \<and> snd ij < n) \<and>
        (\<forall>i j. i < j \<and> j < n \<longrightarrow>
           \<not> lt (arrangement n (exchange_swaps n lt) ! j) (arrangement n (exchange_swaps n lt) ! i))"
    unfolding sorted_before_def by auto
qed


lemma Swap_map_positions:
  assumes "length p = n" and "i < n" and "j < n"
  shows "Swap (map ((!) s) p) (int i) (int j) = Inr (map ((!) s) (swap_positions p (i, j)))"
  using assms by (simp add: Swap_def inRange_def Len_def swap_positions_def map_update)

lemma swap_positions_length: "length (swap_positions p ij) = length p"
  by (simp add: swap_positions_def)

lemma run_Swaps_arrangement:
  assumes "\<forall>ij \<in> set sw. fst ij < n \<and> snd ij < n" and "length p = n"
  shows "run_Swaps sw (map ((!) s) p) = Inr (map ((!) s) (foldl swap_positions p sw))"
  using assms
proof (induction sw arbitrary: p)
  case Nil
  then show ?case by simp
next
  case (Cons ij sw)
  have "Swap (map ((!) s) p) (int (fst ij)) (int (snd ij)) =
      Inr (map ((!) s) (swap_positions p ij))"
    using Swap_map_positions [of p n "fst ij" "snd ij" s] Cons.prems by simp
  moreover have "run_Swaps sw (map ((!) s) (swap_positions p ij)) =
      Inr (map ((!) s) (foldl swap_positions (swap_positions p ij) sw))"
    using Cons.prems by (intro Cons.IH) (simp_all add: swap_positions_length)
  ultimately show ?case by simp
qed

lemma swap_positions_mset:
  "fst ij < length p \<Longrightarrow> snd ij < length p \<Longrightarrow> mset (swap_positions p ij) = mset p"
  by (simp add: swap_positions_def mset_swap)

lemma arrangement_mset:
  assumes "\<forall>ij \<in> set sw. fst ij < n \<and> snd ij < n" and "length p = n"
  shows "mset (foldl swap_positions p sw) = mset p"
  using assms
  by (induction sw arbitrary: p) (simp_all add: swap_positions_mset swap_positions_length)

lemma Less_answers_strict_weak_order: "strict_weak_order (length s) (Less_answers s)"
  unfolding strict_weak_order_def Less_answers_def
  by (auto simp: Less_def inRange_def Len_def)

text \<open>A sort that works through the interface meets the contract on its result.\<close>

lemma sort_Sort_by_interface_contract:
  assumes "sort_Sort_by_interface swaps srt"
  shows "sort_Sort_contract srt"
  unfolding sort_Sort_contract_def
proof (intro allI conjI impI)
  fix s :: ShardInfos
  let ?n = "length s"
  let ?sw = "swaps ?n (Less_answers s)"
  let ?p = "arrangement ?n ?sw"
  have lib: "\<forall>ij \<in> set ?sw. fst ij < ?n \<and> snd ij < ?n"
    "\<And>i j. i < j \<Longrightarrow> j < ?n \<Longrightarrow> \<not> Less_answers s (?p ! j) (?p ! i)"
    using assms Less_answers_strict_weak_order [of s]
    unfolding sort_Sort_by_interface_def sorts_by_swaps_def by blast+
  have "run_Swaps ?sw s = Inr (srt s)"
    using assms by (simp add: sort_Sort_by_interface_def Len_def)
  moreover have "run_Swaps ?sw (map ((!) s) [0..<?n]) = Inr (map ((!) s) ?p)"
    unfolding arrangement_def by (rule run_Swaps_arrangement [OF lib(1)]) simp
  ultimately have srt: "srt s = map ((!) s) ?p"
    by (simp add: map_nth)
  have pm: "mset ?p = mset [0..<?n]"
    unfolding arrangement_def by (rule arrangement_mset [OF lib(1)]) simp
  then have "mset (map ((!) s) ?p) = mset (map ((!) s) [0..<?n])"
    by (metis mset_map)
  then show "mset (srt s) = mset s"
    by (simp add: srt map_nth)
  fix i j
  assume ij: "i < j \<and> j < length (srt s)"
  have len: "length ?p = ?n"
    using pm by (metis size_mset length_upt diff_zero)
  have rng: "?p ! k < ?n" if "k < ?n" for k
  proof -
    have "?p ! k \<in> set ?p" using that len by simp
    then have "?p ! k \<in> set [0..<?n]" using pm by (metis mset_eq_setD)
    then show ?thesis by simp
  qed
  have ij': "i < j" "j < ?n" "i < ?n"
    using ij srt len by auto
  have "\<not> Less_answers s (?p ! j) (?p ! i)"
    using lib(2) ij' by blast
  then show "Less (srt s) (int j) (int i) = Inr False"
    using ij' rng [of i] rng [of j] len
    by (auto simp: srt Less_answers_def Less_def inRange_def Len_def)
qed

lemma exchange_Sort_by_interface: "sort_Sort_by_interface exchange_swaps exchange_Sort"
  unfolding sort_Sort_by_interface_def
proof (intro conjI allI)
  show "sorts_by_swaps exchange_swaps"
    by (rule exchange_swaps_sorts)
next
  fix s :: ShardInfos
  let ?n = "length s"
  let ?sw = "exchange_swaps ?n (Less_answers s)"
  have "\<forall>ij \<in> set ?sw. fst ij < ?n \<and> snd ij < ?n"
    using exchange_swaps_sorts Less_answers_strict_weak_order [of s]
    unfolding sorts_by_swaps_def by blast
  then have "run_Swaps ?sw (map ((!) s) [0..<?n]) =
      Inr (map ((!) s) (foldl swap_positions [0..<?n] ?sw))"
    by (rule run_Swaps_arrangement) simp
  then show "run_Swaps (exchange_swaps (nat (Len s)) (Less_answers s)) s = Inr (exchange_Sort s)"
    by (simp add: exchange_Sort_def Len_def map_nth)
qed

text \<open>No function on the heap writes a record that exists.\<close>

lemma append_slice_objs:
  "append_slice grow m a x = (m', a') \<Longrightarrow> objs m' = objs m \<and> next_array m \<le> next_array m'"
  by (auto simp: append_slice_def split: if_splits)

lemma Filter_mem_loop_objs:
  "Filter_mem_loop grow fmt s i k m a = Inr (m', a') \<Longrightarrow> objs m' = objs m"
proof (induction k arbitrary: i m a)
  case 0
  then show ?case by simp
next
  case (Suc k)
  then show ?case
    by (auto split: option.splits if_splits prod.splits dest!: append_slice_objs)
qed

lemma Swap_mem_objs: "Swap_mem m s i j = Inr m' \<Longrightarrow> objs m' = objs m"
  by (auto simp: Swap_mem_def split: if_splits)

lemma run_Swaps_mem_objs: "run_Swaps_mem sw m s = Inr m' \<Longrightarrow> objs m' = objs m"
  by (induction sw arbitrary: m) (auto split: sum.splits dest: Swap_mem_objs)

lemma sort_Sort_mem_objs: "sort_Sort_mem swaps m s = Inr m' \<Longrightarrow> objs m' = objs m"
  by (auto simp: sort_Sort_mem_def split: if_splits option.splits dest: run_Swaps_mem_objs)

lemma created_ok_refl: "fresh_ok m \<Longrightarrow> created_ok m m"
  by (auto simp: created_ok_def)

lemma created_ok_trans:
  assumes "created_ok m m1" and "created_ok m1 m2"
  shows "created_ok m m2"
proof -
  have le: "objs m \<subseteq>\<^sub>m objs m2"
    using assms by (auto simp: created_ok_def intro: map_le_trans)
  have fmt: "Format x \<in> {b1, bz1, tsm1}" if "objs m p = None" and "objs m2 p = Some x" for p x
  proof (cases "objs m1 p")
    case None
    then show ?thesis using assms(2) that unfolding created_ok_def by blast
  next
    case (Some y)
    then have "objs m2 p = Some y"
      using assms(2) by (auto simp: created_ok_def map_le_def dom_def)
    then show ?thesis
      using assms(1) that Some unfolding created_ok_def by auto
  qed
  show ?thesis
    using assms le fmt unfolding created_ok_def by auto
qed

lemma new_ShardInfo_created:
  assumes "fresh_ok m" and "Format si \<in> {b1, bz1, tsm1}" and "new_ShardInfo m si = (m', p)"
  shows "created_ok m m'"
  using assms
  by (auto simp: created_ok_def new_ShardInfo_def fresh_ok_def map_le_def split: if_splits)

lemma append_slice_created:
  assumes "fresh_ok m" and "append_slice grow m a x = (m', a')"
  shows "created_ok m m'"
  using assms append_slice_objs [OF assms(2)]
  by (auto simp: created_ok_def fresh_ok_def)

lemma Shards_shards_mem_created:
  assumes "fresh_ok m" and "Shards_shards_mem grow w d rp shards m sl = (m', r)"
  shows "created_ok m m'"
  using assms
proof (induction shards arbitrary: m sl)
  case Nil
  then show ?case by (simp add: created_ok_refl)
next
  case (Cons sh shards)
  obtain fmt sz err where sf: "shardFormat w (filepath_Join w [path d, rp, sh]) = (fmt, sz, err)"
    by (cases "shardFormat w (filepath_Join w [path d, rp, sh])") auto
  have fmt: "fmt \<in> {b1, bz1, tsm1}"
    using shardFormat_format [of w "filepath_Join w [path d, rp, sh]"] sf by simp
  show ?case
  proof (cases err)
    case (Some e)
    then show ?thesis using Cons.prems sf by (simp add: created_ok_refl)
  next
    case None
    let ?si = "\<lparr>Database = Name w d, RetentionPolicy = path_Base w rp, Path = sh,
                 Format = fmt, Size = sz\<rparr>"
    obtain m1 p where n: "new_ShardInfo m ?si = (m1, p)"
      by (cases "new_ShardInfo m ?si") auto
    obtain m2 sl2 where a: "append_slice grow m1 sl p = (m2, sl2)"
      by (cases "append_slice grow m1 sl p") auto
    have 1: "created_ok m m1"
      using new_ShardInfo_created [OF Cons.prems(1) _ n] fmt by simp
    then have f1: "fresh_ok m1" by (simp add: created_ok_def)
    have 2: "created_ok m1 m2"
      by (rule append_slice_created [OF f1 a])
    then have f2: "fresh_ok m2" by (simp add: created_ok_def)
    have "Shards_shards_mem grow w d rp shards m2 sl2 = (m', r)"
      using Cons.prems(2) sf None n a by simp
    from Cons.IH [OF f2 this] 1 2 show ?thesis
      by (blast intro: created_ok_trans)
  qed
qed

lemma Shards_rps_mem_created:
  assumes "fresh_ok m" and "Shards_rps_mem grow w d rps m sl = (m', r)"
  shows "created_ok m m'"
  using assms
proof (induction rps arbitrary: m sl)
  case Nil
  then show ?case by (simp add: created_ok_refl)
next
  case (Cons rp rps)
  show ?case
  proof (cases "os_Open w (filepath_Join w [path d, rp])")
    case (Inl e)
    then show ?thesis using Cons.prems by (simp add: created_ok_refl)
  next
    case (Inr rpfd)
    obtain shards err where ls: "Readdirnames w rpfd (- 1) = (shards, err)"
      by (cases "Readdirnames w rpfd (- 1)") auto
    obtain m1 r1 where inner: "Shards_shards_mem grow w d rp shards m sl = (m1, r1)"
      by (cases "Shards_shards_mem grow w d rp shards m sl") auto
    have 1: "created_ok m m1"
      by (rule Shards_shards_mem_created [OF Cons.prems(1) inner])
    then have f1: "fresh_ok m1" by (simp add: created_ok_def)
    show ?thesis
    proof (cases r1)
      case (Inl e)
      then show ?thesis using Cons.prems(2) Inr ls inner 1 by simp
    next
      case (Inr sl1)
      then have "Shards_rps_mem grow w d rps m1 sl1 = (m', r)"
        using Cons.prems(2) \<open>os_Open w (filepath_Join w [path d, rp]) = Inr rpfd\<close> ls inner
        by simp
      from Cons.IH [OF f1 this] 1 show ?thesis
        by (blast intro: created_ok_trans)
    qed
  qed
qed

lemma Shards_mem_created:
  assumes "fresh_ok m" and "Shards_mem grow swaps w d m = Inr (m', sl, err)"
  shows "objs m \<subseteq>\<^sub>m objs m' \<and>
         (\<forall>p x. objs m p = None \<and> objs m' p = Some x \<longrightarrow> Format x \<in> {b1, bz1, tsm1})"
proof -
  have "\<exists>m1. created_ok m m1 \<and> objs m' = objs m1"
  proof (cases "os_Open w (path d)")
    case (Inl e)
    then have "m' = m" using assms(2) by (simp add: Shards_mem_def)
    then show ?thesis using created_ok_refl [OF assms(1)] by blast
  next
    case (Inr fd)
    obtain rps e where ls: "Readdirnames w fd (- 1) = (rps, e)"
      by (cases "Readdirnames w fd (- 1)") auto
    show ?thesis
    proof (cases e)
      case (Some x)
      then have "m' = m" using assms(2) Inr ls by (simp add: Shards_mem_def)
      then show ?thesis using created_ok_refl [OF assms(1)] by blast
    next
      case None
      obtain m1 r1 where loop: "Shards_rps_mem grow w d rps m nil_slice = (m1, r1)"
        by (cases "Shards_rps_mem grow w d rps m nil_slice") auto
      have 1: "created_ok m m1"
        by (rule Shards_rps_mem_created [OF assms(1) loop])
      have "objs m' = objs m1"
        using assms(2) Inr ls None loop
        by (auto simp: Shards_mem_def split: sum.splits dest: sort_Sort_mem_objs)
      with 1 show ?thesis by blast
    qed
  qed
  then obtain m1 where "created_ok m m1" and "objs m' = objs m1"
    by blast
  then show ?thesis
    unfolding created_ok_def by metis
qed

text \<open>The functions on the heap, evaluated.\<close>

lemma example_Shards_rps_mem:
  "Shards_rps_mem (\<lambda>c. 2 * c) (example_env listing_ok Map.empty) (NewDatabase ''/data/db1'')
     [''rp2'', ''rp1''] empty_memory nil_slice =
   (example_scan_memory [1, 3, 5, 0], Inr \<lparr>arr = 6, off = 0, len = 3\<rparr>)"
proof -
  let ?w = "example_env listing_ok Map.empty"
  have sel: "os_Open ?w = (\<lambda>p. Inr (File p))"
    "Readdirnames ?w = (\<lambda>f n. case f of File p \<Rightarrow> listing_ok p)"
    "filepath_Join ?w = join_slash" "path_Base ?w = path_Base_go"
    by (simp_all add: example_env_def)
  have d: "shardFormat ?w ''/data/db1/rp2/s_dir'' = (tsm1, 4096, None)"
    "shardFormat ?w ''/data/db1/rp1/s_dir'' = (tsm1, 4096, None)"
    by (rule example_shardFormat_dir, simp add: path_Base_go_def)+
  have f: "shardFormat ?w ''/data/db1/rp1/s_flat'' = (b1, 65536, None)"
    by (rule example_shardFormat_flat) (simp add: path_Base_go_def)
  show ?thesis
    by (simp add: NewDatabase_def Name_def sel listing_ok_def d f path_Base_go_def
        empty_memory_def nil_slice_def new_ShardInfo_def append_slice_def cap_def cells_def
        example_scan_memory_def eval_nat_numeral)
qed

lemma example_Shards_shards_mem:
  "Shards_shards_mem (\<lambda>c. 2 * c) (example_env listing_ok Map.empty) (NewDatabase ''/data/db1'')
     ''rp2'' [''s_dir''] empty_memory nil_slice =
   (\<lparr>objs = [1 \<mapsto> \<lparr>Database = ''db1'', RetentionPolicy = ''rp2'', Path = ''s_dir'',
                    Format = tsm1, Size = 4096\<rparr>],
      arrays = (\<lambda>id. [])(2 := [1]), next_array = 3\<rparr>,
    Inr \<lparr>arr = 2, off = 0, len = 1\<rparr>)"
proof -
  let ?w = "example_env listing_ok Map.empty"
  have sel: "filepath_Join ?w = join_slash" "path_Base ?w = path_Base_go"
    by (simp_all add: example_env_def)
  have d: "shardFormat ?w ''/data/db1/rp2/s_dir'' = (tsm1, 4096, None)"
    by (rule example_shardFormat_dir) (simp add: path_Base_go_def)
  show ?thesis
    by (simp add: NewDatabase_def Name_def sel d path_Base_go_def empty_memory_def
        nil_slice_def new_ShardInfo_def append_slice_def cap_def cells_def eval_nat_numeral)
qed

lemma example_sort_Sort_mem:
  "sort_Sort_mem exchange_swaps (example_scan_memory [1, 3, 5, 0]) \<lparr>arr = 6, off = 0, len = 3\<rparr> =
   Inr (example_scan_memory [3, 5, 1, 0])"
  by (simp add: sort_Sort_mem_def contents_def cells_def exchange_swaps_def Less_answers_def
      Less_def inRange_def Len_def swap_positions_def Swap_mem_def inRange_mem_def entry_def
      upt_conv_Cons example_scan_memory_def tsm1_def b1_def)

lemma example_Shards_mem:
  "Shards_mem (\<lambda>c. 2 * c) exchange_swaps (example_env listing_ok Map.empty)
     (NewDatabase ''/data/db1'') empty_memory =
   Inr (example_scan_memory [3, 5, 1, 0], \<lparr>arr = 6, off = 0, len = 3\<rparr>, None)"
proof -
  let ?w = "example_env listing_ok Map.empty"
  have sel: "os_Open ?w = (\<lambda>p. Inr (File p))"
    "Readdirnames ?w = (\<lambda>f n. case f of File p \<Rightarrow> listing_ok p)"
    by (simp_all add: example_env_def)
  have ls: "listing_ok ''/data/db1'' = ([''rp2'', ''rp1''], None)"
    by (simp add: listing_ok_def)
  have p: "path (NewDatabase ''/data/db1'') = ''/data/db1''"
    by (simp add: NewDatabase_def)
  show ?thesis
    by (simp add: Shards_mem_def sel p ls example_Shards_rps_mem example_sort_Sort_mem
        del: Shards_rps_mem.simps One_nat_def)
qed

lemma example_memory_operations:
  "FormatAsString_mem example_memory 1 = Inr (example_memory, ''b1'')"
  "Less_mem example_memory example_slice 0 2 = Inr (example_memory, True)"
  "Swap_mem example_memory example_slice 0 2 =
     Inr (example_memory\<lparr>arrays := (\<lambda>id. [])(1 := [3, 2, 1])\<rparr>)"
  "Databases_mem rev example_memory example_slice = Inr (example_memory, [''db1''])"
  "sort_Sort_mem exchange_swaps example_memory example_slice = Inr example_memory"
proof -
  show "FormatAsString_mem example_memory 1 = Inr (example_memory, ''b1'')"
    by (simp add: FormatAsString_mem_def example_memory_def FormatAsString_def
        b1_def bz1_def tsm1_def)
  show "Less_mem example_memory example_slice 0 2 = Inr (example_memory, True)"
    by (simp add: Less_mem_def inRange_mem_def entry_def example_memory_def example_slice_def)
  show "Swap_mem example_memory example_slice 0 2 =
     Inr (example_memory\<lparr>arrays := (\<lambda>id. [])(1 := [3, 2, 1])\<rparr>)"
    by (simp add: Swap_mem_def inRange_mem_def entry_def example_memory_def example_slice_def)
  show "Databases_mem rev example_memory example_slice = Inr (example_memory, [''db1''])"
    by (simp add: Databases_mem_def contents_def cells_def example_memory_def example_slice_def
        Databases_def sort_Strings_def)
  show "sort_Sort_mem exchange_swaps example_memory example_slice = Inr example_memory"
    by (simp add: sort_Sort_mem_def contents_def cells_def exchange_swaps_def Less_answers_def
        Less_def inRange_def Len_def swap_positions_def Swap_mem_def inRange_mem_def entry_def
        upt_conv_Cons example_memory_def example_slice_def)
qed

text \<open>The field \<open>sort_Sort\<close> of the environment plays no role in the loops.\<close>

lemma shardFormat_sort_Sort_update:
  "shardFormat (w\<lparr>sort_Sort := srt\<rparr>) pth = shardFormat w pth"
  by (simp add: shardFormat_def split: sum.splits)

lemma Shards_shards_sort_Sort_update:
  "Shards_shards (w\<lparr>sort_Sort := srt\<rparr>) d rp shards acc = Shards_shards w d rp shards acc"
  by (induction shards arbitrary: acc)
     (simp_all add: shardFormat_sort_Sort_update Name_def split: prod.splits option.splits)

lemma Shards_rps_sort_Sort_update:
  "Shards_rps (w\<lparr>sort_Sort := srt\<rparr>) d rps acc = Shards_rps w d rps acc"
  by (induction rps arbitrary: acc)
     (simp_all add: Shards_shards_sort_Sort_update split: sum.splits prod.splits)

lemma example_exchange_Sort:
  "exchange_Sort
     [\<lparr>Database = ''db1'', RetentionPolicy = ''rp2'', Path = ''s_dir'', Format = tsm1, Size = 4096\<rparr>,
      \<lparr>Database = ''db1'', RetentionPolicy = ''rp1'', Path = ''s_flat'', Format = b1, Size = 65536\<rparr>,
      \<lparr>Database = ''db1'', RetentionPolicy = ''rp1'', Path = ''s_dir'', Format = tsm1, Size = 4096\<rparr>] =
     [\<lparr>Database = ''db1'', RetentionPolicy = ''rp1'', Path = ''s_flat'', Format = b1, Size = 65536\<rparr>,
      \<lparr>Database = ''db1'', RetentionPolicy = ''rp1'', Path = ''s_dir'', Format = tsm1, Size = 4096\<rparr>,
      \<lparr>Database = ''db1'', RetentionPolicy = ''rp2'', Path = ''s_dir'', Format = tsm1, Size = 4096\<rparr>]"
  by (simp add: exchange_Sort_def exchange_swaps_def Len_def Less_answers_def Less_def
      inRange_def swap_positions_def Swap_def upt_conv_Cons tsm1_def b1_def)

lemma example_Shards_exchange:
  "Shards ((example_env listing_ok Map.empty)\<lparr>sort_Sort := exchange_Sort\<rparr>)
     (NewDatabase ''/data/db1'') =
     ([\<lparr>Database = ''db1'', RetentionPolicy = ''rp1'', Path = ''s_flat'', Format = b1, Size = 65536\<rparr>,
       \<lparr>Database = ''db1'', RetentionPolicy = ''rp1'', Path = ''s_dir'', Format = tsm1, Size = 4096\<rparr>,
       \<lparr>Database = ''db1'', RetentionPolicy = ''rp2'', Path = ''s_dir'', Format = tsm1, Size = 4096\<rparr>],
      None)"
proof -
  let ?w = "example_env listing_ok Map.empty"
  have sel: "os_Open ?w = (\<lambda>p. Inr (File p))"
    "Readdirnames ?w = (\<lambda>f n. case f of File p \<Rightarrow> listing_ok p)"
    by (simp_all add: example_env_def)
  have ls: "listing_ok ''/data/db1'' = ([''rp2'', ''rp1''], None)"
    by (simp add: listing_ok_def)
  have p: "path (NewDatabase ''/data/db1'') = ''/data/db1''"
    by (simp add: NewDatabase_def)
  show ?thesis
    by (simp add: Shards_def sel p ls Shards_rps_sort_Sort_update example_Shards_rps_ok
        example_exchange_Sort del: Shards_rps.simps)
qed

section \<open>The claims\<close>

subsection \<open>C1: failures while opening and listing directories\<close>

text \<open>
  C1 says that \<^verbatim>\<open>Shards\<close> fails, with the underlying error and no partial list, as
  soon as opening or listing the root or a retention-policy directory fails. The code
  does so for the root (open and listing) and for opening a retention-policy directory,
  but it never looks at the error of listing a retention-policy directory. In the
  environment below the listing of \<open>/data/db1/rp\<close> breaks off with an error after
  the name \<open>s_dir\<close> and the listing of the plain file \<open>/data/db1/README\<close> fails;
  \<^verbatim>\<open>Shards\<close> returns the record of the one shard it has seen and a nil error.
\<close>

theorem Shards_ignores_listing_error:
  "Readdirnames (example_env listing_broken Map.empty) (File ''/data/db1/rp'') (- 1) =
     ([''s_dir''], Some ''input/output error'') \<and>
   Readdirnames (example_env listing_broken Map.empty) (File ''/data/db1/README'') (- 1) =
     ([], Some ''not a directory'') \<and>
   Shards (example_env listing_broken Map.empty) (NewDatabase ''/data/db1'') =
     ([\<lparr>Database = ''db1'', RetentionPolicy = ''rp'', Path = ''s_dir'', Format = tsm1,
        Size = 4096\<rparr>],
      None)"
proof -
  let ?w = "example_env listing_broken Map.empty"
  have sel: "os_Open ?w = (\<lambda>p. Inr (File p))"
    "Readdirnames ?w = (\<lambda>f n. case f of File p \<Rightarrow> listing_broken p)"
    "filepath_Join ?w = join_slash" "path_Base ?w = path_Base_go"
    "sort_Sort ?w = sort_by_key"
    by (simp_all add: example_env_def)
  have d: "shardFormat ?w ''/data/db1/rp/s_dir'' = (tsm1, 4096, None)"
    by (rule example_shardFormat_dir) (simp add: path_Base_go_def)
  show ?thesis
    by (simp add: Shards_def NewDatabase_def Name_def sel listing_broken_def d
        path_Base_go_def sort_by_key_def)
qed

subsection \<open>C2: the format of a bolt store\<close>

text \<open>
  C2: for a shard file that bolt opens and whose read-only transaction begins,
  \<^verbatim>\<open>shardFormat\<close> returns b1 when there is no bucket \<open>meta\<close>, b1 when the bucket
  \<open>meta\<close> has the value \<open>v1\<close> under the key \<open>format\<close>, and bz1 when the bucket
  is there and the key holds another value or is missing. The size is the size stat
  reported and the error is whatever the rollback of the transaction returns.
\<close>

theorem shardFormat_store_format:
  assumes "os_Open w pth = Inr f" and "Stat w f = Inr fi" and "\<not> IsDir (Mode fi)"
    and "bolt_Open w pth 438 \<lparr>Timeout = 1 * Second\<rparr> = Inr db"
    and "Begin db = Inr tx"
  shows "(Bucket tx ''meta'' = None \<longrightarrow>
            shardFormat w pth = (b1, FileInfo.Size fi, Rollback db)) \<and>
         (\<forall>b. Bucket tx ''meta'' = Some b \<and> Get b ''format'' = Some ''v1'' \<longrightarrow>
            shardFormat w pth = (b1, FileInfo.Size fi, Rollback db)) \<and>
         (\<forall>b. Bucket tx ''meta'' = Some b \<and> Get b ''format'' \<noteq> Some ''v1'' \<longrightarrow>
            shardFormat w pth = (bz1, FileInfo.Size fi, Rollback db))"
  using assms
  by (auto simp: shardFormat_def View_def shardFormat_view_def string_of_bytes_def
      split: option.splits)

theorem shardFormat_store_format_witness:
  "shardFormat (example_env listing_ok Map.empty) ''/data/db1/rp1/s_flat'' =
     (b1, 65536, None) \<and>
   shardFormat (example_env listing_ok [''meta'' \<mapsto> [''format'' \<mapsto> ''v1'']])
     ''/data/db1/rp1/s_flat'' = (b1, 65536, None) \<and>
   shardFormat (example_env listing_ok [''meta'' \<mapsto> [''format'' \<mapsto> ''v2'']])
     ''/data/db1/rp1/s_flat'' = (bz1, 65536, None) \<and>
   shardFormat (example_env listing_ok [''meta'' \<mapsto> Map.empty])
     ''/data/db1/rp1/s_flat'' = (bz1, 65536, None)"
proof -
  let ?p = "''/data/db1/rp1/s_flat''"
  let ?fi = "\<lparr>Mode = 420, Size = 65536\<rparr>"
  have 1: "os_Open (example_env listing_ok tx) ?p = Inr (File ?p)" for tx
    by (simp add: example_env_def)
  have 2: "Stat (example_env listing_ok tx) (File ?p) = Inr ?fi" for tx
    by (simp add: example_env_def path_Base_go_def)
  have 3: "\<not> IsDir (Mode ?fi)"
    by (simp add: IsDir_def ModeDir_def)
  have 4: "bolt_Open (example_env listing_ok tx) ?p 438 \<lparr>Timeout = 1 * Second\<rparr> =
             Inr \<lparr>Begin = Inr tx, Rollback = None\<rparr>" for tx
    by (simp add: example_env_def)
  have 5: "Begin \<lparr>Begin = Inr tx, Rollback = None :: string option\<rparr> = Inr tx" for tx
    by simp
  note t = shardFormat_store_format [OF 1 2 3 4 5]
  show ?thesis
    using t [of Map.empty] t [of "[''meta'' \<mapsto> [''format'' \<mapsto> ''v1'']]"]
      t [of "[''meta'' \<mapsto> [''format'' \<mapsto> ''v2'']]"] t [of "[''meta'' \<mapsto> Map.empty]"]
    by (simp add: Bucket_def Get_def)
qed

subsection \<open>C3: a directory is a tsm1 shard\<close>

text \<open>
  C3: when the path opens and stat reports a directory, \<^verbatim>\<open>shardFormat\<close> returns
  tsm1, the size that stat reported for the directory entry, and no error. The
  contents of the directory play no role: the result is the same whatever
  \<^verbatim>\<open>Readdirnames\<close> and \<^verbatim>\<open>bolt.Open\<close> would answer.
\<close>

theorem shardFormat_directory:
  assumes "os_Open w pth = Inr f" and "Stat w f = Inr fi" and "IsDir (Mode fi)"
  shows "shardFormat w pth = (tsm1, FileInfo.Size fi, None) \<and>
         shardFormat (w\<lparr>Readdirnames := ls, bolt_Open := bo\<rparr>) pth =
           (tsm1, FileInfo.Size fi, None)"
  using assms by (simp add: shardFormat_def)

theorem shardFormat_directory_witness:
  "os_Open (example_env listing_ok Map.empty) ''/data/db1/rp1/s_dir'' =
     Inr (File ''/data/db1/rp1/s_dir'') \<and>
   Stat (example_env listing_ok Map.empty) (File ''/data/db1/rp1/s_dir'') =
     Inr \<lparr>Mode = ModeDir OR 493, Size = 4096\<rparr> \<and>
   IsDir (ModeDir OR 493) \<and>
   shardFormat (example_env listing_ok Map.empty) ''/data/db1/rp1/s_dir'' =
     (tsm1, 4096, None) \<and>
   shardFormat (example_env listing_broken Map.empty) ''/data/db1/rp1/s_dir'' =
     (tsm1, 4096, None)"
proof -
  let ?w = "example_env listing_ok Map.empty"
  let ?p = "''/data/db1/rp1/s_dir''"
  let ?fi = "\<lparr>Mode = ModeDir OR 493, Size = 4096\<rparr>"
  have 1: "os_Open ?w ?p = Inr (File ?p)"
    by (simp add: example_env_def)
  have 2: "Stat ?w (File ?p) = Inr ?fi"
    by (simp add: example_env_def path_Base_go_def)
  have 3: "IsDir (Mode ?fi)"
    by (simp add: IsDir_def ModeDir_def)
  have 4: "?w\<lparr>Readdirnames := (\<lambda>f n. case f of File p \<Rightarrow> listing_broken p),
              bolt_Open := bolt_Open ?w\<rparr> = example_env listing_broken Map.empty"
    by (simp add: example_env_def)
  show ?thesis
    using shardFormat_directory [OF 1 2 3,
        where ls = "\<lambda>f n. case f of File p \<Rightarrow> listing_broken p" and bo = "bolt_Open ?w"]
      1 2 3
    unfolding 4 by simp
qed

subsection \<open>C4: the comparison on a tie\<close>

text \<open>
  C4: for two entries of a slice with the same database and the same retention
  policy, \<^verbatim>\<open>Less(i, j)\<close> is false, also when their paths differ: the third
  comparison compares the path of entry \<open>i\<close> with itself.
\<close>

theorem Less_tie_is_false:
  assumes "inRange s i" and "inRange s j"
    and "Database (s ! nat i) = Database (s ! nat j)"
    and "RetentionPolicy (s ! nat i) = RetentionPolicy (s ! nat j)"
  shows "Less s i j = Inr False"
  using assms by (simp add: Less_def)

theorem Less_tie_is_false_witness:
  "Path (odd_shard\<lparr>Path := ''1''\<rparr>) \<noteq> Path (odd_shard\<lparr>Path := ''2''\<rparr>) \<and>
   Less [odd_shard\<lparr>Path := ''1''\<rparr>, odd_shard\<lparr>Path := ''2''\<rparr>] 0 1 = Inr False \<and>
   Less [odd_shard\<lparr>Path := ''1''\<rparr>, odd_shard\<lparr>Path := ''2''\<rparr>] 1 0 = Inr False"
  using Less_tie_is_false [of "[odd_shard\<lparr>Path := ''1''\<rparr>, odd_shard\<lparr>Path := ''2''\<rparr>]" 0 1]
    Less_tie_is_false [of "[odd_shard\<lparr>Path := ''1''\<rparr>, odd_shard\<lparr>Path := ''2''\<rparr>]" 1 0]
  by (simp add: inRange_def Len_def)

subsection \<open>C5: the result of Shards is sorted\<close>

text \<open>
  C5: when \<^verbatim>\<open>Shards\<close> succeeds, the list it returns is in nondecreasing order of
  the database name and, among equal database names, in nondecreasing order of the
  retention-policy name. The library is assumed to sort any strict weak order by
  swaps (\<open>sorts_by_swaps\<close>); that the result of the call is sorted then rests on the
  code: \<^verbatim>\<open>Len\<close> is the length, \<^verbatim>\<open>Less\<close> is a strict weak order that
  compares database and retention policy, and \<^verbatim>\<open>Swap\<close> exchanges two entries.
\<close>

theorem Shards_sorted:
  assumes "sort_Sort_by_interface swaps (sort_Sort w)" and "Shards w d = (infos, None)"
  shows "sorted_wrt (\<lambda>a b. Database a \<le> Database b \<and>
           (Database a = Database b \<longrightarrow> RetentionPolicy a \<le> RetentionPolicy b)) infos"
proof -
  from Shards_success_built [OF assms(2)] obtain built where "infos = sort_Sort w built"
    by blast
  then show ?thesis
    using sort_Sort_contract_sorted [OF sort_Sort_by_interface_contract [OF assms(1)]]
    by simp
qed

theorem Shards_sorted_witness:
  "sort_Sort_by_interface exchange_swaps
     (sort_Sort ((example_env listing_ok Map.empty)\<lparr>sort_Sort := exchange_Sort\<rparr>)) \<and>
   Shards ((example_env listing_ok Map.empty)\<lparr>sort_Sort := exchange_Sort\<rparr>)
     (NewDatabase ''/data/db1'') =
     ([\<lparr>Database = ''db1'', RetentionPolicy = ''rp1'', Path = ''s_flat'', Format = b1,
        Size = 65536\<rparr>,
       \<lparr>Database = ''db1'', RetentionPolicy = ''rp1'', Path = ''s_dir'', Format = tsm1,
        Size = 4096\<rparr>,
       \<lparr>Database = ''db1'', RetentionPolicy = ''rp2'', Path = ''s_dir'', Format = tsm1,
        Size = 4096\<rparr>],
      None) \<and>
   sorted_wrt (\<lambda>a b. Database a \<le> Database b \<and>
       (Database a = Database b \<longrightarrow> RetentionPolicy a \<le> RetentionPolicy b))
     [\<lparr>Database = ''db1'', RetentionPolicy = ''rp1'', Path = ''s_flat'', Format = b1,
       Size = 65536\<rparr>,
      \<lparr>Database = ''db1'', RetentionPolicy = ''rp1'', Path = ''s_dir'', Format = tsm1,
       Size = 4096\<rparr>,
      \<lparr>Database = ''db1'', RetentionPolicy = ''rp2'', Path = ''s_dir'', Format = tsm1,
       Size = 4096\<rparr>]"
proof -
  have c: "sort_Sort_by_interface exchange_swaps
     (sort_Sort ((example_env listing_ok Map.empty)\<lparr>sort_Sort := exchange_Sort\<rparr>))"
    by (simp add: exchange_Sort_by_interface)
  show ?thesis
    using Shards_sorted [OF c example_Shards_exchange] c example_Shards_exchange
    by blast
qed

subsection \<open>C6: Filter\<close>

text \<open>
  C6: \<^verbatim>\<open>Filter(fmt)\<close> returns exactly the entries of \<open>s\<close> whose format is not
  \<open>fmt\<close>, in the order they have in \<open>s\<close>, in a new slice, and leaves \<open>s\<close> as it
  was. On lists: the result is the list of the entries with another format. On the
  heap, for a slice \<open>sl\<close> whose entries point to the records \<open>s\<close>: the call
  returns, the slice it returns holds that list, the slice \<open>sl\<close> holds afterwards
  what it held before, and no record and no array that existed before has changed.
\<close>

theorem Filter_keeps_other_formats:
  "Filter s fmt = filter (\<lambda>ss. Format ss \<noteq> fmt) s \<and> subseq (Filter s fmt) s \<and>
   (mem_ok m \<and> slice_ok m sl \<and> contents m sl = map Some s \<longrightarrow>
      (\<exists>m' a. Filter_mem grow m sl fmt = Inr (m', a) \<and>
         contents m' a = map Some (Filter s fmt) \<and>
         contents m' sl = contents m sl \<and> objs m' = objs m \<and>
         (\<forall>id. id < next_array m \<longrightarrow> arrays m' id = arrays m id)))"
proof -
  have pure: "Filter s fmt = filter (\<lambda>ss. Format ss \<noteq> fmt) s"
    by (simp add: Filter_def Filter_loop_append)
  show ?thesis
    using Filter_mem_result [of m sl s grow fmt] by (simp add: pure)
qed

theorem Filter_keeps_other_formats_witness:
  "mem_ok example_memory \<and> slice_ok example_memory example_slice \<and>
   contents example_memory example_slice = map Some example_shards \<and>
   Filter example_shards tsm1 = [example_shards ! 0, example_shards ! 2] \<and>
   (\<exists>m' a. Filter_mem (\<lambda>c. 2 * c) example_memory example_slice tsm1 = Inr (m', a) \<and>
      contents m' a = map Some [example_shards ! 0, example_shards ! 2] \<and>
      contents m' example_slice = contents example_memory example_slice \<and>
      objs m' = objs example_memory)"
proof -
  have 1: "mem_ok example_memory"
    by (simp add: mem_ok_def example_memory_def)
  have 2: "slice_ok example_memory example_slice"
    by (simp add: slice_ok_def example_memory_def example_slice_def)
  have 3: "contents example_memory example_slice = map Some example_shards"
    by (simp add: contents_def cells_def example_memory_def example_slice_def example_shards_def)
  have 4: "Filter example_shards tsm1 = [example_shards ! 0, example_shards ! 2]"
    by (simp add: Filter_def example_shards_def tsm1_def b1_def bz1_def)
  from Filter_keeps_other_formats [of example_shards tsm1 example_memory example_slice
      "\<lambda>c. 2 * c"] 1 2 3
  have "\<exists>m' a. Filter_mem (\<lambda>c. 2 * c) example_memory example_slice tsm1 = Inr (m', a) \<and>
      contents m' a = map Some (Filter example_shards tsm1) \<and>
      contents m' example_slice = contents example_memory example_slice \<and>
      objs m' = objs example_memory"
    by blast
  then show ?thesis
    using 1 2 3 4 by simp
qed

subsection \<open>C7: Databases\<close>

text \<open>
  C7: whatever the order in which the map is ranged over, \<^verbatim>\<open>Databases()\<close> returns
  a list without duplicates, sorted in ascending lexicographic order, whose members
  are exactly the database names that occur in the slice.
\<close>

theorem Databases_sorted_distinct:
  assumes "range_contract range_order"
  shows "distinct (Databases range_order s) \<and> sorted (Databases range_order s) \<and>
         set (Databases range_order s) = Database ` set s"
proof -
  let ?keys = "map fst (Databases_dbm s [])"
  have perm: "mset (range_order ?keys) = mset ?keys"
    using assms by (simp add: range_contract_def)
  have d: "distinct ?keys"
    by (rule Databases_dbm_distinct) simp
  have k: "set ?keys = Database ` set s"
    using Databases_dbm_keys [of s "[]"] by simp
  have "distinct (range_order ?keys)"
    using perm d by (metis mset_eq_imp_distinct_iff)
  moreover have "set (range_order ?keys) = Database ` set s"
    using perm k by (metis mset_eq_setD)
  ultimately show ?thesis
    by (simp add: Databases_def sort_Strings_def Databases_dbk_append)
qed

theorem Databases_sorted_distinct_witness:
  "range_contract rev \<and>
   Databases rev [odd_shard\<lparr>Database := ''db2''\<rparr>, odd_shard, odd_shard\<lparr>Database := ''db2''\<rparr>]
     = [''db1'', ''db2''] \<and>
   distinct [''db1'', ''db2''] \<and> sorted [''db1'', ''db2''] \<and>
   set [''db1'', ''db2''] =
     Database ` set [odd_shard\<lparr>Database := ''db2''\<rparr>, odd_shard, odd_shard\<lparr>Database := ''db2''\<rparr>]"
proof -
  let ?s = "[odd_shard\<lparr>Database := ''db2''\<rparr>, odd_shard, odd_shard\<lparr>Database := ''db2''\<rparr>]"
  have v: "Databases rev ?s = [''db1'', ''db2'']"
    by (simp add: Databases_def sort_Strings_def odd_shard_def)
  show ?thesis
    using Databases_sorted_distinct [OF rev_range_contract, of ?s] rev_range_contract
    unfolding v by simp
qed

subsection \<open>C8: FormatAsString\<close>

text \<open>
  C8: \<^verbatim>\<open>FormatAsString\<close> returns \<open>b1\<close>, \<open>bz1\<close> and \<open>tsm1\<close> for the three
  formats, and for every other format it panics: the result is the panic and no label.
\<close>

theorem FormatAsString_labels:
  "(Format s = b1 \<longrightarrow> FormatAsString s = Inr ''b1'') \<and>
   (Format s = bz1 \<longrightarrow> FormatAsString s = Inr ''bz1'') \<and>
   (Format s = tsm1 \<longrightarrow> FormatAsString s = Inr ''tsm1'') \<and>
   (Format s \<notin> {b1, bz1, tsm1} \<longrightarrow>
      FormatAsString s = Inl (Panic ''unrecognized shard engine format''))"
  by (simp add: FormatAsString_def b1_def bz1_def tsm1_def)

theorem FormatAsString_labels_witness:
  "FormatAsString (odd_shard\<lparr>Format := b1\<rparr>) = Inr ''b1'' \<and>
   FormatAsString (odd_shard\<lparr>Format := bz1\<rparr>) = Inr ''bz1'' \<and>
   FormatAsString (odd_shard\<lparr>Format := tsm1\<rparr>) = Inr ''tsm1'' \<and>
   Format (odd_shard\<lparr>Format := - 1\<rparr>) \<notin> {b1, bz1, tsm1} \<and>
   FormatAsString (odd_shard\<lparr>Format := - 1\<rparr>) =
     Inl (Panic ''unrecognized shard engine format'')"
  using FormatAsString_labels [of "odd_shard\<lparr>Format := b1\<rparr>"]
    FormatAsString_labels [of "odd_shard\<lparr>Format := bz1\<rparr>"]
    FormatAsString_labels [of "odd_shard\<lparr>Format := tsm1\<rparr>"]
    FormatAsString_labels [of "odd_shard\<lparr>Format := - 1\<rparr>"]
  by (simp add: odd_shard_def b1_def bz1_def tsm1_def)

subsection \<open>C9: the formats that exist, and records that stay as they are\<close>

text \<open>
  C9 says that no format outside b1, bz1 and tsm1 can be constructed and that a
  record, once created, is never changed. \<^verbatim>\<open>EngineFormat\<close> is an integer type, so
  a record with another format can be written down, and \<^verbatim>\<open>FormatAsString\<close> has a
  branch for it. What holds of the formats: every format \<^verbatim>\<open>shardFormat\<close> returns,
  and so the format of every record the loops of \<^verbatim>\<open>Shards\<close> build, is b1, bz1 or
  tsm1. And a record, once created, is never changed: on the heap, the loops of
  \<^verbatim>\<open>Shards\<close> and \<^verbatim>\<open>Shards\<close> itself leave every record that exists as it is
  (each round of a loop, too, since a loop begun in the middle is the same loop on a
  shorter list), and \<^verbatim>\<open>FormatAsString\<close>, \<^verbatim>\<open>Len\<close>, \<^verbatim>\<open>Less\<close>, \<^verbatim>\<open>Swap\<close>,
  \<^verbatim>\<open>Filter\<close>, \<^verbatim>\<open>Databases\<close> and \<^verbatim>\<open>sort.Sort\<close> leave the records exactly
  as they find them.
\<close>

theorem constructed_formats_closed:
  "fst (shardFormat w pth) \<in> {b1, bz1, tsm1} \<and>
   (\<forall>infos. Shards_rps w d rps [] = Inr infos \<longrightarrow>
      (\<forall>si \<in> set infos. Format si \<in> {b1, bz1, tsm1})) \<and>
   (fresh_ok m \<longrightarrow>
      (\<forall>m' r. Shards_shards_mem grow w d rp shards m s = (m', r) \<longrightarrow>
         objs m \<subseteq>\<^sub>m objs m' \<and>
         (\<forall>p x. objs m p = None \<and> objs m' p = Some x \<longrightarrow> Format x \<in> {b1, bz1, tsm1})) \<and>
      (\<forall>m' r. Shards_rps_mem grow w d rps m s = (m', r) \<longrightarrow>
         objs m \<subseteq>\<^sub>m objs m' \<and>
         (\<forall>p x. objs m p = None \<and> objs m' p = Some x \<longrightarrow> Format x \<in> {b1, bz1, tsm1})) \<and>
      (\<forall>m' s' err. Shards_mem grow swaps w d m = Inr (m', s', err) \<longrightarrow>
         objs m \<subseteq>\<^sub>m objs m' \<and>
         (\<forall>p x. objs m p = None \<and> objs m' p = Some x \<longrightarrow> Format x \<in> {b1, bz1, tsm1}))) \<and>
   (\<forall>m' label. FormatAsString_mem m a = Inr (m', label) \<longrightarrow> objs m' = objs m) \<and>
   objs (fst (Len_mem m s)) = objs m \<and>
   (\<forall>m' b. Less_mem m s i j = Inr (m', b) \<longrightarrow> objs m' = objs m) \<and>
   (\<forall>m'. Swap_mem m s i j = Inr m' \<longrightarrow> objs m' = objs m) \<and>
   (\<forall>m' s'. Filter_mem grow m s fmt = Inr (m', s') \<longrightarrow> objs m' = objs m) \<and>
   (\<forall>m' dbk. Databases_mem range_order m s = Inr (m', dbk) \<longrightarrow> objs m' = objs m) \<and>
   (\<forall>m'. sort_Sort_mem swaps m s = Inr m' \<longrightarrow> objs m' = objs m)"
proof -
  have 1: "fst (shardFormat w pth) \<in> {b1, bz1, tsm1}"
    by (rule shardFormat_format)
  have 2: "\<forall>infos. Shards_rps w d rps [] = Inr infos \<longrightarrow>
      (\<forall>si \<in> set infos. Format si \<in> {b1, bz1, tsm1})"
    using Shards_rps_formats [of w d rps "[]"] by simp
  have 3: "objs m \<subseteq>\<^sub>m objs m' \<and>
         (\<forall>p x. objs m p = None \<and> objs m' p = Some x \<longrightarrow> Format x \<in> {b1, bz1, tsm1})"
    if "fresh_ok m" and "Shards_shards_mem grow w d rp shards m s = (m', r)" for m' r
    using Shards_shards_mem_created [OF that] unfolding created_ok_def by blast
  have 4: "objs m \<subseteq>\<^sub>m objs m' \<and>
         (\<forall>p x. objs m p = None \<and> objs m' p = Some x \<longrightarrow> Format x \<in> {b1, bz1, tsm1})"
    if "fresh_ok m" and "Shards_rps_mem grow w d rps m s = (m', r)" for m' r
    using Shards_rps_mem_created [OF that] unfolding created_ok_def by blast
  have 5: "objs m \<subseteq>\<^sub>m objs m' \<and>
         (\<forall>p x. objs m p = None \<and> objs m' p = Some x \<longrightarrow> Format x \<in> {b1, bz1, tsm1})"
    if "fresh_ok m" and "Shards_mem grow swaps w d m = Inr (m', s', err)" for m' s' err
    using Shards_mem_created [OF that] .
  have 6: "\<forall>m' label. FormatAsString_mem m a = Inr (m', label) \<longrightarrow> objs m' = objs m"
    by (auto simp: FormatAsString_mem_def split: option.splits sum.splits)
  have 7: "objs (fst (Len_mem m s)) = objs m"
    by (simp add: Len_mem_def)
  have 8: "\<forall>m' b. Less_mem m s i j = Inr (m', b) \<longrightarrow> objs m' = objs m"
    by (auto simp: Less_mem_def split: if_splits option.splits)
  have 9: "\<forall>m'. Swap_mem m s i j = Inr m' \<longrightarrow> objs m' = objs m"
    by (auto dest: Swap_mem_objs)
  have 10: "\<forall>m' s'. Filter_mem grow m s fmt = Inr (m', s') \<longrightarrow> objs m' = objs m"
    by (auto simp: Filter_mem_def dest: Filter_mem_loop_objs)
  have 11: "\<forall>m' dbk. Databases_mem range_order m s = Inr (m', dbk) \<longrightarrow> objs m' = objs m"
    by (auto simp: Databases_mem_def split: option.splits)
  have 12: "\<forall>m'. sort_Sort_mem swaps m s = Inr m' \<longrightarrow> objs m' = objs m"
    by (auto dest: sort_Sort_mem_objs)
  show ?thesis
    using 1 2 3 4 5 6 7 8 9 10 11 12 by blast
qed

theorem constructed_formats_closed_witness:
  "fst (shardFormat (example_env listing_ok Map.empty) ''/data/db1/rp1/s_flat'') = b1 \<and>
   Shards_rps (example_env listing_ok Map.empty) (NewDatabase ''/data/db1'') [''rp2'', ''rp1''] [] =
     Inr [\<lparr>Database = ''db1'', RetentionPolicy = ''rp2'', Path = ''s_dir'', Format = tsm1,
           Size = 4096\<rparr>,
          \<lparr>Database = ''db1'', RetentionPolicy = ''rp1'', Path = ''s_flat'', Format = b1,
           Size = 65536\<rparr>,
          \<lparr>Database = ''db1'', RetentionPolicy = ''rp1'', Path = ''s_dir'', Format = tsm1,
           Size = 4096\<rparr>] \<and>
   tsm1 \<in> {b1, bz1, tsm1} \<and> b1 \<in> {b1, bz1, tsm1} \<and>
   fresh_ok empty_memory \<and>
   Shards_shards_mem (\<lambda>c. 2 * c) (example_env listing_ok Map.empty) (NewDatabase ''/data/db1'')
     ''rp2'' [''s_dir''] empty_memory nil_slice =
     (\<lparr>objs = [1 \<mapsto> \<lparr>Database = ''db1'', RetentionPolicy = ''rp2'', Path = ''s_dir'',
                      Format = tsm1, Size = 4096\<rparr>],
        arrays = (\<lambda>id. [])(2 := [1]), next_array = 3\<rparr>,
      Inr \<lparr>arr = 2, off = 0, len = 1\<rparr>) \<and>
   objs empty_memory \<subseteq>\<^sub>m
     [1 \<mapsto> \<lparr>Database = ''db1'', RetentionPolicy = ''rp2'', Path = ''s_dir'',
           Format = tsm1, Size = 4096\<rparr>] \<and>
   Shards_rps_mem (\<lambda>c. 2 * c) (example_env listing_ok Map.empty) (NewDatabase ''/data/db1'')
     [''rp2'', ''rp1''] empty_memory nil_slice =
     (example_scan_memory [1, 3, 5, 0], Inr \<lparr>arr = 6, off = 0, len = 3\<rparr>) \<and>
   objs empty_memory \<subseteq>\<^sub>m objs (example_scan_memory [1, 3, 5, 0]) \<and>
   Shards_mem (\<lambda>c. 2 * c) exchange_swaps (example_env listing_ok Map.empty)
     (NewDatabase ''/data/db1'') empty_memory =
     Inr (example_scan_memory [3, 5, 1, 0], \<lparr>arr = 6, off = 0, len = 3\<rparr>, None) \<and>
   objs empty_memory \<subseteq>\<^sub>m objs (example_scan_memory [3, 5, 1, 0]) \<and>
   sort_Sort_mem exchange_swaps (example_scan_memory [1, 3, 5, 0]) \<lparr>arr = 6, off = 0, len = 3\<rparr> =
     Inr (example_scan_memory [3, 5, 1, 0]) \<and>
   objs (example_scan_memory [3, 5, 1, 0]) = objs (example_scan_memory [1, 3, 5, 0]) \<and>
   FormatAsString_mem example_memory 1 = Inr (example_memory, ''b1'') \<and>
   Less_mem example_memory example_slice 0 2 = Inr (example_memory, True) \<and>
   Swap_mem example_memory example_slice 0 2 =
     Inr (example_memory\<lparr>arrays := (\<lambda>id. [])(1 := [3, 2, 1])\<rparr>) \<and>
   objs (example_memory\<lparr>arrays := (\<lambda>id. [])(1 := [3, 2, 1])\<rparr>) = objs example_memory \<and>
   (\<exists>m' s'. Filter_mem (\<lambda>c. 2 * c) example_memory example_slice tsm1 = Inr (m', s') \<and>
      objs m' = objs example_memory) \<and>
   Databases_mem rev example_memory example_slice = Inr (example_memory, [''db1''])"
proof -
  let ?w = "example_env listing_ok Map.empty"
  let ?d = "NewDatabase ''/data/db1''"
  note ops = example_memory_operations
  have fl: "shardFormat ?w ''/data/db1/rp1/s_flat'' = (b1, 65536, None)"
    by (rule example_shardFormat_flat) (simp add: path_Base_go_def)
  have fr: "fresh_ok empty_memory"
    by (simp add: fresh_ok_def empty_memory_def)
  have "mem_ok example_memory" and "slice_ok example_memory example_slice"
    and "contents example_memory example_slice = map Some example_shards"
    by (simp_all add: mem_ok_def slice_ok_def contents_def cells_def example_memory_def
        example_slice_def example_shards_def)
  from Filter_mem_result [OF this, of "\<lambda>c. 2 * c" tsm1]
  obtain m1 s1 where fi: "Filter_mem (\<lambda>c. 2 * c) example_memory example_slice tsm1 = Inr (m1, s1)"
    by blast
  note t1 = constructed_formats_closed [of ?w "''/data/db1/rp1/s_flat''" ?d "[''rp2'', ''rp1'']"
      empty_memory "\<lambda>c. 2 * c" "''rp''" "[]" nil_slice exchange_swaps 0 0 0 tsm1 rev]
  note t2 = constructed_formats_closed [of ?w "''/data/db1/rp1/s_flat''" ?d "[''rp2'', ''rp1'']"
      "example_scan_memory [1, 3, 5, 0]" "\<lambda>c. 2 * c" "''rp''" "[]"
      "\<lparr>arr = 6, off = 0, len = 3\<rparr>" exchange_swaps 0 0 0 tsm1 rev]
  note t3 = constructed_formats_closed [of ?w "''/data/db1/rp1/s_flat''" ?d "[''rp2'', ''rp1'']"
      example_memory "\<lambda>c. 2 * c" "''rp''" "[]" example_slice exchange_swaps 1 0 2 tsm1 rev]
  note t0 = constructed_formats_closed [of ?w "''/data/db1/rp1/s_flat''" ?d "[''rp2'', ''rp1'']"
      empty_memory "\<lambda>c. 2 * c" "''rp2''" "[''s_dir'']" nil_slice exchange_swaps 0 0 0 tsm1 rev]
  have a0: "objs empty_memory \<subseteq>\<^sub>m
     [1 \<mapsto> \<lparr>Database = ''db1'', RetentionPolicy = ''rp2'', Path = ''s_dir'',
           Format = tsm1, Size = 4096\<rparr>]"
    using t0 fr example_Shards_shards_mem by fastforce
  have a: "objs empty_memory \<subseteq>\<^sub>m objs (example_scan_memory [1, 3, 5, 0])"
    using t1 fr example_Shards_rps_mem by blast
  have b: "objs empty_memory \<subseteq>\<^sub>m objs (example_scan_memory [3, 5, 1, 0])"
    using t1 fr example_Shards_mem by blast
  have c: "objs (example_scan_memory [3, 5, 1, 0]) = objs (example_scan_memory [1, 3, 5, 0])"
    using t2 example_sort_Sort_mem by blast
  have d: "objs (example_memory\<lparr>arrays := (\<lambda>id. [])(1 := [3, 2, 1])\<rparr>) = objs example_memory"
    using t3 ops(3) by blast
  have e: "objs m1 = objs example_memory"
    using t3 fi by blast
  show ?thesis
    using fl example_Shards_rps_ok fr example_Shards_shards_mem a0 example_Shards_rps_mem a
      example_Shards_mem b
      example_sort_Sort_mem c ops(1,2,3,4) d fi e
    by (simp del: Shards_rps.simps Shards_rps_mem.simps Shards_shards_mem.simps One_nat_def)
qed

theorem format_outside_enumeration:
  "Format odd_shard \<notin> {b1, bz1, tsm1} \<and>
   FormatAsString odd_shard = Inl (Panic ''unrecognized shard engine format'')"
  by (simp add: odd_shard_def FormatAsString_def b1_def bz1_def tsm1_def)

subsection \<open>C10: the records of a successful scan have a label\<close>

text \<open>
  C10: every record in the result of a successful \<^verbatim>\<open>Shards\<close> call has the format
  b1, bz1 or tsm1, so \<^verbatim>\<open>FormatAsString\<close> returns one of the three labels for it
  and does not panic.
\<close>

theorem Shards_formats_labelled:
  assumes "sort_Sort_contract (sort_Sort w)" and "Shards w d = (infos, None)"
    and "si \<in> set infos"
  shows "Format si \<in> {b1, bz1, tsm1} \<and>
         FormatAsString si \<in> {Inr ''b1'', Inr ''bz1'', Inr ''tsm1''}"
proof -
  from Shards_success_built [OF assms(2)] obtain rps built
    where built: "Shards_rps w d rps [] = Inr built" and infos: "infos = sort_Sort w built"
    by blast
  have "si \<in> set built"
    using assms(1,3) infos by (simp add: sort_Sort_contract_set)
  moreover have "\<forall>x \<in> set built. Format x \<in> {b1, bz1, tsm1}"
    using Shards_rps_formats [OF built] by simp
  ultimately have "Format si \<in> {b1, bz1, tsm1}"
    by blast
  then show ?thesis
    by (auto simp: FormatAsString_def b1_def bz1_def tsm1_def)
qed

theorem Shards_formats_labelled_witness:
  "sort_Sort_contract (sort_Sort (example_env listing_ok Map.empty)) \<and>
   fst (Shards (example_env listing_ok Map.empty) (NewDatabase ''/data/db1'')) ! 0 =
     \<lparr>Database = ''db1'', RetentionPolicy = ''rp1'', Path = ''s_flat'', Format = b1,
      Size = 65536\<rparr> \<and>
   snd (Shards (example_env listing_ok Map.empty) (NewDatabase ''/data/db1'')) = None \<and>
   FormatAsString
     \<lparr>Database = ''db1'', RetentionPolicy = ''rp1'', Path = ''s_flat'', Format = b1,
      Size = 65536\<rparr> = Inr ''b1''"
proof -
  let ?si = "\<lparr>Database = ''db1'', RetentionPolicy = ''rp1'', Path = ''s_flat'', Format = b1,
      Size = 65536\<rparr>"
  have "FormatAsString ?si \<in> {Inr ''b1'', Inr ''bz1'', Inr ''tsm1''}"
    using Shards_formats_labelled [OF example_env_sort_contract example_Shards_ok, of ?si]
    by simp
  then show ?thesis
    using example_env_sort_contract [of listing_ok Map.empty]
    by (simp add: example_Shards_ok FormatAsString_def b1_def bz1_def tsm1_def)
qed


end
